theory Spec2Isabelle
  imports Complex_Main "HOL-Library.Log_Nat"
begin

section \<open>Python numbers\<close>

text \<open>
  The costing functions of \<^verbatim>\<open>src/app.py\<close> compute with three kinds of Python numbers:
  \<^verbatim>\<open>Decimal\<close> (what a \<^verbatim>\<open>db.Numeric\<close> column yields), unbounded \<^verbatim>\<open>int\<close>, and \<^verbatim>\<open>float\<close>
  (IEEE 754 binary64). A finite float is represented by the rational number it denotes;
  \<open>Fin 0\<close> stands for both zeros, which compare equal in Python and which no branch of
  the two functions tells apart.
\<close>

datatype pyfloat = Fin rat | PInf | NInf | NaN

text \<open>\<open>ilog2 x\<close> is the exponent \<open>e\<close> with \<open>2 powi e \<le> x < 2 powi (e + 1)\<close>, for \<open>0 < x\<close>.\<close>

definition ilog2 :: "rat \<Rightarrow> int" where
  "ilog2 x = (if 1 \<le> x then bitlen \<lfloor>x\<rfloor> - 1 else - bitlen (\<lceil>1 / x\<rceil> - 1))"

definition round_half_even :: "rat \<Rightarrow> int" where
  "round_half_even y =
     (let f = \<lfloor>y\<rfloor>; d = y - of_int f
      in if d < 1 / 2 then f
         else if 1 / 2 < d then f + 1
         else if even f then f else f + 1)"

text \<open>
  The spacing of the doubles around \<open>x\<close> is \<open>2 powi quantum x\<close>: 53 significant bits
  for normal numbers, and the fixed spacing \<open>2 powi - 1074\<close> of the subnormal range.
\<close>

definition quantum :: "rat \<Rightarrow> int" where
  "quantum x = max (- 1074) (ilog2 \<bar>x\<bar> - 52)"

text \<open>The multiple of the spacing nearest to \<open>x\<close>, ties to the even multiple.\<close>

definition nearest :: "rat \<Rightarrow> rat" where
  "nearest x = of_int (round_half_even (x / 2 powi quantum x)) * 2 powi quantum x"

text \<open>
  Rounding of an exact value to the nearest double, ties to even; a value that rounds
  to \<open>2 ^ 1024\<close> or beyond becomes an infinity.
\<close>

definition round_double :: "rat \<Rightarrow> pyfloat" where
  "round_double x =
     (if x = 0 then Fin 0
      else if 2 ^ 1024 \<le> \<bar>nearest x\<bar> then (if 0 < x then PInf else NInf)
      else Fin (nearest x))"

text \<open>Python's \<^verbatim>\<open><=\<close> on floats: false whenever an operand is NaN.\<close>

fun fle :: "pyfloat \<Rightarrow> pyfloat \<Rightarrow> bool" where
  "fle NaN _ = False"
| "fle _ NaN = False"
| "fle (Fin a) (Fin b) = (a \<le> b)"
| "fle NInf _ = True"
| "fle _ PInf = True"
| "fle _ _ = False"

definition inf_of_sign :: "bool \<Rightarrow> pyfloat" where
  "inf_of_sign neg = (if neg then NInf else PInf)"

fun fadd :: "pyfloat \<Rightarrow> pyfloat \<Rightarrow> pyfloat" where
  "fadd NaN _ = NaN"
| "fadd _ NaN = NaN"
| "fadd (Fin a) (Fin b) = round_double (a + b)"
| "fadd PInf NInf = NaN"
| "fadd NInf PInf = NaN"
| "fadd PInf _ = PInf"
| "fadd _ PInf = PInf"
| "fadd NInf _ = NInf"
| "fadd _ NInf = NInf"

fun fneg :: "pyfloat \<Rightarrow> bool" where
  "fneg (Fin a) = (a < 0)"
| "fneg NInf = True"
| "fneg _ = False"

fun fmul :: "pyfloat \<Rightarrow> pyfloat \<Rightarrow> pyfloat" where
  "fmul NaN _ = NaN"
| "fmul _ NaN = NaN"
| "fmul (Fin a) (Fin b) = round_double (a * b)"
| "fmul (Fin a) y = (if a = 0 then NaN else inf_of_sign ((a < 0) \<noteq> fneg y))"
| "fmul x (Fin b) = (if b = 0 then NaN else inf_of_sign (fneg x \<noteq> (b < 0)))"
| "fmul x y = inf_of_sign (fneg x \<noteq> fneg y)"

datatype exn = OverflowError | ValueError

text \<open>\<^verbatim>\<open>math.ceil\<close> of a float: an \<^verbatim>\<open>int\<close>, or an exception for a non-finite argument.\<close>

fun ceil :: "pyfloat \<Rightarrow> exn + int" where
  "ceil (Fin a) = Inr \<lceil>a\<rceil>"
| "ceil NaN = Inl ValueError"
| "ceil _ = Inl OverflowError"

text \<open>
  \<^verbatim>\<open>round(x, 2)\<close> on a float: the exact value of \<open>x\<close> is rounded to two decimals, ties
  to even, and the decimal is converted back to the nearest double; a non-finite
  argument is returned as it is.
\<close>

fun round2 :: "pyfloat \<Rightarrow> pyfloat" where
  "round2 (Fin a) = round_double (of_int (round_half_even (a * 100)) / 100)"
| "round2 x = x"

text \<open>\<^verbatim>\<open>float(d)\<close> for a finite \<^verbatim>\<open>Decimal\<close> \<open>d\<close>: the nearest double.\<close>

definition float_of_decimal :: "rat \<Rightarrow> pyfloat" where
  "float_of_decimal d = round_double d"

text \<open>The values an argument of \<^verbatim>\<open>calculate_material_quantity\<close> can be.\<close>

datatype pyval = PNone | PBool bool | PInt int | PFloat pyfloat | PStr string

fun isinstance_int :: "pyval \<Rightarrow> bool" where
  "isinstance_int (PInt _) = True"
| "isinstance_int (PBool _) = True"
| "isinstance_int _ = False"

fun isinstance_int_float :: "pyval \<Rightarrow> bool" where
  "isinstance_int_float (PFloat _) = True"
| "isinstance_int_float v = isinstance_int v"

text \<open>\<^verbatim>\<open>v <= 0\<close>, for the values that pass the \<^verbatim>\<open>isinstance\<close> test before it.\<close>

fun le_zero :: "pyval \<Rightarrow> bool" where
  "le_zero (PInt n) = (n \<le> 0)"
| "le_zero (PBool b) = (\<not> b)"
| "le_zero (PFloat (Fin a)) = (a \<le> 0)"
| "le_zero (PFloat NInf) = True"
| "le_zero _ = False"

text \<open>
  The conversion of an \<^verbatim>\<open>int\<close> operand in mixed \<^verbatim>\<open>int\<close>/\<^verbatim>\<open>float\<close> arithmetic: correctly
  rounded, and \<^verbatim>\<open>OverflowError\<close> for an integer beyond the range of the doubles.
\<close>

definition float_of_int :: "int \<Rightarrow> exn + pyfloat" where
  "float_of_int n =
     (case round_double (of_int n) of Fin r \<Rightarrow> Inr (Fin r) | _ \<Rightarrow> Inl OverflowError)"

fun as_float :: "pyval \<Rightarrow> exn + pyfloat" where
  "as_float (PFloat x) = Inr x"
| "as_float (PInt n) = float_of_int n"
| "as_float (PBool b) = float_of_int (if b then 1 else 0)"
| "as_float _ = Inl ValueError"


section \<open>The tables\<close>

text \<open>
  One record per mapped class of \<^verbatim>\<open>src/app.py\<close>, with the columns the costing functions
  can reach; a \<^verbatim>\<open>db.Numeric\<close> column holds a decimal, kept as the rational it denotes.
  A column name that several classes share carries the table's initials.
\<close>

record ServiceType =
  st_type_name :: string
  complexity_coefficient :: rat

record Service =
  service_code :: string
  type_name :: string
  service_name :: string
  min_cost :: rat
  time_norm_hours :: rat
  hourly_rate :: rat

record MaterialType =
  mt_type_name :: string
  overconsumption_percent :: rat

record Material =
  material_id :: int
  m_type_name :: string
  material_name :: string
  current_price :: rat

record ServiceMaterial =
  sm_service_code :: string
  sm_material_id :: int
  consumption_norm :: rat

text \<open>The database the queries read: each table is the list of its rows.\<close>

record db =
  service_types :: "ServiceType list"
  services :: "Service list"
  material_types :: "MaterialType list"
  materials :: "Material list"
  service_materials :: "ServiceMaterial list"

text \<open>
  \<^verbatim>\<open>Model.query.filter_by(col=v).first()\<close> is \<^const>\<open>find\<close> on the table, and
  \<^verbatim>\<open>.all()\<close> is \<^const>\<open>filter\<close>. A mapped object is always true in a condition, so
  \<^verbatim>\<open>if not row\<close> tests for \<open>None\<close>, and \<^verbatim>\<open>if not rows\<close> for the empty list.
\<close>

section \<open>The costing functions\<close>

text \<open>
  Each failure path of the two functions writes one line with \<^verbatim>\<open>logger.error\<close> and
  returns the integer \<open>-1\<close>. The model returns both: the lines logged, one constructor
  per message, and the value returned.
\<close>

datatype log_event =
    Service_not_found string
  | No_materials_found string
  | Material_not_found int
  | Invalid_quantity pyval
  | Invalid_service_params pyval
  | Service_type_not_found string
  | Material_type_not_found string
  | Error_calculating_material_quantity exn

type_synonym outcome = "log_event list \<times> pyval"

text \<open>
  The \<^verbatim>\<open>for sm in service_materials\<close> loop of \<^verbatim>\<open>calculate_service_cost\<close>: \<open>Inl\<close> is
  the early return at a row whose material is missing, with that row's material id.
\<close>

fun material_cost_loop :: "Material list \<Rightarrow> ServiceMaterial list \<Rightarrow> pyfloat \<Rightarrow> int + pyfloat" where
  "material_cost_loop ms [] material_cost = Inr material_cost"
| "material_cost_loop ms (sm # sms) material_cost =
     (case find (\<lambda>m. material_id m = sm_material_id sm) ms of
        None \<Rightarrow> Inl (sm_material_id sm)
      | Some material \<Rightarrow>
          material_cost_loop ms sms
            (fadd material_cost (float_of_decimal (consumption_norm sm * current_price material))))"

text \<open>
  \<^verbatim>\<open>material_cost\<close> starts as the integer \<open>0\<close>, which the first \<^verbatim>\<open>+=\<close> converts to
  \<open>0.0\<close>. No operation of the body raises on the values of the columns, so the
  \<^verbatim>\<open>except\<close> clause is left to failures of the database connection, which are not
  modelled.
\<close>

definition calculate_service_cost :: "db \<Rightarrow> string \<Rightarrow> outcome" where
  "calculate_service_cost d code =
     (case find (\<lambda>s. service_code s = code) (services d) of
        None \<Rightarrow> ([Service_not_found code], PInt (- 1))
      | Some service \<Rightarrow>
          let labor_cost = float_of_decimal (time_norm_hours service * hourly_rate service)
          in (case filter (\<lambda>sm. sm_service_code sm = code) (service_materials d) of
                [] \<Rightarrow> ([No_materials_found code], PInt (- 1))
              | sms \<Rightarrow>
                  (case material_cost_loop (materials d) sms (Fin 0) of
                     Inl mid \<Rightarrow> ([Material_not_found mid], PInt (- 1))
                   | Inr material_cost \<Rightarrow> ([], PFloat (round2 (fadd labor_cost material_cost))))))"

text \<open>
  Lines 140 to 147 of \<^verbatim>\<open>calculate_material_quantity\<close>, inside the \<^verbatim>\<open>try\<close>: \<open>Inl\<close> is
  the exception raised.
\<close>

definition total_quantity :: "ServiceType \<Rightarrow> MaterialType \<Rightarrow> pyval \<Rightarrow> pyval \<Rightarrow> exn + pyfloat" where
  "total_quantity service_type_data material_type_data quantity service_params =
     (case as_float service_params of
        Inl e \<Rightarrow> Inl e
      | Inr sp \<Rightarrow>
          let base_quantity = fmul sp (float_of_decimal (complexity_coefficient service_type_data));
              overconsumption = float_of_decimal (overconsumption_percent material_type_data)
          in (case as_float quantity of
                Inl e \<Rightarrow> Inl e
              | Inr q \<Rightarrow> Inr (fmul (fmul base_quantity q) (fadd (Fin 1) overconsumption))))"

definition calculate_material_quantity :: "db \<Rightarrow> string \<Rightarrow> string \<Rightarrow> pyval \<Rightarrow> pyval \<Rightarrow> outcome" where
  "calculate_material_quantity d service_type material_type quantity service_params =
     (if \<not> isinstance_int quantity \<or> le_zero quantity
      then ([Invalid_quantity quantity], PInt (- 1))
      else if \<not> isinstance_int_float service_params \<or> le_zero service_params
      then ([Invalid_service_params service_params], PInt (- 1))
      else case find (\<lambda>t. st_type_name t = service_type) (service_types d) of
             None \<Rightarrow> ([Service_type_not_found service_type], PInt (- 1))
           | Some service_type_data \<Rightarrow>
               (case find (\<lambda>t. mt_type_name t = material_type) (material_types d) of
                  None \<Rightarrow> ([Material_type_not_found material_type], PInt (- 1))
                | Some material_type_data \<Rightarrow>
                    (case total_quantity service_type_data material_type_data quantity service_params of
                       Inl e \<Rightarrow> ([Error_calculating_material_quantity e], PInt (- 1))
                     | Inr tq \<Rightarrow>
                         (case ceil tq of
                            Inl e \<Rightarrow> ([Error_calculating_material_quantity e], PInt (- 1))
                          | Inr n \<Rightarrow> ([], PInt n)))))"


section \<open>Catalog states that agree up to \<open>min_cost\<close>\<close>

definition same_but_min_cost :: "db \<Rightarrow> db \<Rightarrow> bool" where
  "same_but_min_cost d d' \<longleftrightarrow>
     service_types d = service_types d' \<and>
     material_types d = material_types d' \<and>
     materials d = materials d' \<and>
     service_materials d = service_materials d' \<and>
     map (\<lambda>s. s\<lparr>min_cost := 0\<rparr>) (services d) = map (\<lambda>s. s\<lparr>min_cost := 0\<rparr>) (services d')"

section \<open>A small catalog\<close>

text \<open>
  Service \<open>S1\<close> is the worked example of the specification; \<open>S2\<close> has no consumption
  row, and the row of \<open>S3\<close> names a material that is not in the table.
\<close>

definition example_db :: db where
  "example_db =
     \<lparr>service_types = [\<lparr>st_type_name = ''A'', complexity_coefficient = 15 / 10\<rparr>],
      services =
        [\<lparr>service_code = ''S1'', type_name = ''A'', service_name = ''Survey'',
          min_cost = 900, time_norm_hours = 2, hourly_rate = 500\<rparr>,
         \<lparr>service_code = ''S2'', type_name = ''A'', service_name = ''Audit'',
          min_cost = 100, time_norm_hours = 1, hourly_rate = 300\<rparr>,
         \<lparr>service_code = ''S3'', type_name = ''A'', service_name = ''Repair'',
          min_cost = 100, time_norm_hours = 3, hourly_rate = 200\<rparr>],
      material_types = [\<lparr>mt_type_name = ''B'', overconsumption_percent = 10 / 100\<rparr>],
      materials =
        [\<lparr>material_id = 1, m_type_name = ''B'', material_name = ''Paint'', current_price = 50\<rparr>],
      service_materials =
        [\<lparr>sm_service_code = ''S1'', sm_material_id = 1, consumption_norm = 4\<rparr>,
         \<lparr>sm_service_code = ''S3'', sm_material_id = 7, consumption_norm = 2\<rparr>]\<rparr>"

section \<open>The specification's reading\<close>

text \<open>
  What the specification calls a positive integer and a positive real number, on the
  values an argument can be. Python's \<^verbatim>\<open>True\<close> is the integer \<open>1\<close>; NaN and the
  infinities are floats but not real numbers.
\<close>

fun positive_integer :: "pyval \<Rightarrow> bool" where
  "positive_integer (PInt n) = (0 < n)"
| "positive_integer (PBool b) = b"
| "positive_integer _ = False"

fun positive_real :: "pyval \<Rightarrow> bool" where
  "positive_real (PInt n) = (0 < n)"
| "positive_real (PBool b) = b"
| "positive_real (PFloat (Fin a)) = (0 < a)"
| "positive_real _ = False"

text \<open>
  The declared type of a \<^verbatim>\<open>db.Numeric(p, s)\<close> column: \<open>s\<close> decimal places and a
  magnitude below \<open>10 ^ (p - s)\<close>.
\<close>

definition numeric :: "nat \<Rightarrow> nat \<Rightarrow> rat \<Rightarrow> bool" where
  "numeric p s v \<longleftrightarrow> of_int \<lfloor>v * 10 ^ s\<rfloor> = v * 10 ^ s \<and> \<bar>v\<bar> < 10 ^ (p - s)"

text \<open>
  The quantity of section 4.2 before the ceiling, in exact arithmetic:
  \<open>serviceParams \<times> complexityCoefficient \<times> quantity \<times> (1 + overconsumptionPercent)\<close>.
\<close>

definition exact_quantity :: "rat \<Rightarrow> rat \<Rightarrow> int \<Rightarrow> rat \<Rightarrow> rat" where
  "exact_quantity service_params coefficient quantity percent =
     service_params * coefficient * of_int quantity * (1 + percent)"

text \<open>
  The cost of section 4.1 before the rounding, in exact arithmetic: labor cost plus the
  sum over the consumption rows of norm times price.
\<close>

fun exact_material_cost :: "Material list \<Rightarrow> ServiceMaterial list \<Rightarrow> rat" where
  "exact_material_cost ms [] = 0"
| "exact_material_cost ms (sm # sms) =
     (case find (\<lambda>m. material_id m = sm_material_id sm) ms of
        None \<Rightarrow> 0
      | Some material \<Rightarrow> consumption_norm sm * current_price material)
     + exact_material_cost ms sms"

definition exact_service_cost :: "db \<Rightarrow> string \<Rightarrow> rat" where
  "exact_service_cost d code =
     (case find (\<lambda>s. service_code s = code) (services d) of
        None \<Rightarrow> 0
      | Some service \<Rightarrow>
          time_norm_hours service * hourly_rate service
          + exact_material_cost (materials d)
              (filter (\<lambda>sm. sm_service_code sm = code) (service_materials d)))"

text \<open>Rounding to two decimal places, with a tie going up, or to the even neighbour.\<close>

definition round_half_up :: "rat \<Rightarrow> int" where
  "round_half_up y = \<lfloor>y + 1 / 2\<rfloor>"

definition two_places_half_up :: "rat \<Rightarrow> rat" where
  "two_places_half_up v = of_int (round_half_up (v * 100)) / 100"

definition two_places_half_even :: "rat \<Rightarrow> rat" where
  "two_places_half_even v = of_int (round_half_even (v * 100)) / 100"

text \<open>
  \<open>rounded n x y\<close>: \<open>y\<close> is the exact value \<open>x\<close> after at most \<open>n\<close> roundings to a
  double, each with a relative error of at most \<open>1 / 2 ^ 53\<close>.
\<close>

definition rounded :: "nat \<Rightarrow> rat \<Rightarrow> rat \<Rightarrow> bool" where
  "rounded n x y \<longleftrightarrow> x * (1 - 1 / 2 ^ 53) ^ n \<le> y \<and> y \<le> x * (1 + 1 / 2 ^ 53) ^ n"

text \<open>
  The invariants of the specification's data model on the columns the cost is computed
  from: every norm, rate and price is positive, and has the type its column declares.
\<close>

definition positive_columns :: "db \<Rightarrow> bool" where
  "positive_columns d \<longleftrightarrow>
     (\<forall>s \<in> set (services d). 0 < time_norm_hours s \<and> 0 < hourly_rate s) \<and>
     (\<forall>m \<in> set (materials d). 0 < current_price m) \<and>
     (\<forall>sm \<in> set (service_materials d). 0 < consumption_norm sm)"

definition declared_types :: "db \<Rightarrow> bool" where
  "declared_types d \<longleftrightarrow>
     (\<forall>s \<in> set (services d). numeric 5 2 (time_norm_hours s) \<and> numeric 10 2 (hourly_rate s)) \<and>
     (\<forall>m \<in> set (materials d). numeric 10 2 (current_price m)) \<and>
     (\<forall>sm \<in> set (service_materials d). numeric 10 2 (consumption_norm sm))"

section \<open>A catalog on which binary rounding shows\<close>

definition rounding_db :: db where
  "rounding_db =
     \<lparr>service_types =
        [\<lparr>st_type_name = ''U'', complexity_coefficient = 1\<rparr>,
         \<lparr>st_type_name = ''V'', complexity_coefficient = 3 / 10\<rparr>],
      services =
        [\<lparr>service_code = ''T1'', type_name = ''U'', service_name = ''Check'',
          min_cost = 1, time_norm_hours = 15 / 100, hourly_rate = 10 / 100\<rparr>],
      material_types =
        [\<lparr>mt_type_name = ''W'', overconsumption_percent = 10 / 100\<rparr>,
         \<lparr>mt_type_name = ''X'', overconsumption_percent = 0\<rparr>],
      materials =
        [\<lparr>material_id = 1, m_type_name = ''W'', material_name = ''Tape'', current_price = 1\<rparr>],
      service_materials =
        [\<lparr>sm_service_code = ''T1'', sm_material_id = 1, consumption_norm = 1\<rparr>]\<rparr>"

section \<open>The binary logarithm\<close>

lemma ilog2_ge1:
  fixes x :: rat
  assumes "1 \<le> x"
  shows "2 powi (bitlen \<lfloor>x\<rfloor> - 1) \<le> x \<and> x < 2 powi (bitlen \<lfloor>x\<rfloor>)"
proof -
  define n where "n = \<lfloor>x\<rfloor>"
  have n: "0 < n" using assms by (simp add: n_def)
  have b: "1 \<le> bitlen n" using n by (simp add: bitlen_alt_def)
  from bitlen_bounds[OF n] have lo: "2 ^ nat (bitlen n - 1) \<le> n" and hi: "n < 2 ^ nat (bitlen n)"
    by auto
  have "(2::rat) powi (bitlen n - 1) = of_int (2 ^ nat (bitlen n - 1))"
    using b by (simp add: power_int_def)
  also have "\<dots> \<le> of_int n" using lo by (simp only: of_int_le_iff)
  also have "\<dots> \<le> x" by (simp add: n_def)
  finally have 1: "2 powi (bitlen n - 1) \<le> x" .
  have "n + 1 \<le> 2 ^ nat (bitlen n)" using hi by simp
  then have "(of_int (n + 1) :: rat) \<le> of_int (2 ^ nat (bitlen n))"
    by (simp only: of_int_le_iff)
  moreover have "x < of_int (n + 1)" unfolding n_def by linarith
  moreover have "(2::rat) powi (bitlen n) = of_int (2 ^ nat (bitlen n))"
    using b by (simp add: power_int_def)
  ultimately have "x < 2 powi (bitlen n)" by simp
  with 1 show ?thesis by (simp add: n_def)
qed

lemma ilog2_lt1:
  fixes x :: rat
  assumes "0 < x" "x < 1"
  shows "2 powi (- bitlen (\<lceil>1 / x\<rceil> - 1)) \<le> x \<and> x < 2 powi (- bitlen (\<lceil>1 / x\<rceil> - 1) + 1)"
proof -
  define y where "y = 1 / x"
  define n where "n = \<lceil>y\<rceil> - 1"
  have y1: "1 < y" using assms by (simp add: y_def)
  have ny: "of_int n < y" "y \<le> of_int n + 1"
    unfolding n_def by linarith+
  have n: "0 < n" using y1 ny by linarith
  have b: "1 \<le> bitlen n" using n by (simp add: bitlen_alt_def)
  from bitlen_bounds[OF n] have lo: "2 ^ nat (bitlen n - 1) \<le> n" and hi: "n < 2 ^ nat (bitlen n)"
    by auto
  have hi': "(of_int (n + 1) :: rat) \<le> of_int (2 ^ nat (bitlen n))"
  proof -
    from hi have "n + 1 \<le> 2 ^ nat (bitlen n)" by simp
    then show ?thesis by (simp only: of_int_le_iff)
  qed
  have p1: "(2::rat) powi (bitlen n) = of_int (2 ^ nat (bitlen n))"
    using b by (simp add: power_int_def)
  have p2: "(2::rat) powi (bitlen n - 1) = of_int (2 ^ nat (bitlen n - 1))"
    using b by (simp add: power_int_def)
  have "y \<le> 2 powi (bitlen n)" using ny(2) hi' unfolding p1 by simp
  then have "1 / (2 powi (bitlen n)) \<le> 1 / y"
    using y1 by (intro divide_left_mono) (auto intro: mult_pos_pos)
  then have 1: "2 powi (- bitlen n) \<le> x"
    using assms by (simp add: y_def power_int_minus_divide)
  have "(of_int (2 ^ nat (bitlen n - 1)) :: rat) \<le> of_int n"
    using lo by (simp only: of_int_le_iff)
  with ny(1) have "2 powi (bitlen n - 1) < y" unfolding p2 by linarith
  then have "1 / y < 1 / (2 powi (bitlen n - 1))"
    using y1 by (intro divide_strict_left_mono) (auto intro: mult_pos_pos)
  then have "x < 1 / (2 powi (bitlen n - 1))"
    using assms by (simp add: y_def)
  then have "x < 2 powi (- (bitlen n - 1))"
    by (simp only: power_int_minus_divide)
  moreover have "- (bitlen n - 1) = - bitlen n + 1" by simp
  ultimately have 2: "x < 2 powi (- bitlen n + 1)" by simp
  from 1 2 show ?thesis by (simp add: n_def y_def)
qed

lemma ilog2_bounds:
  assumes "0 < x"
  shows "2 powi ilog2 x \<le> x" and "x < 2 powi (ilog2 x + 1)"
  using ilog2_ge1[of x] ilog2_lt1[of x] assms
  by (auto simp: ilog2_def not_le)

lemma ilog2_unique:
  assumes "2 powi e \<le> x" "x < 2 powi (e + 1)"
  shows "ilog2 x = e"
proof -
  have x: "0 < x" using assms(1) by (rule less_le_trans[rotated]) simp
  note b = ilog2_bounds[OF x]
  have "\<not> ilog2 x < e"
  proof
    assume "ilog2 x < e"
    then have "(2::rat) powi (ilog2 x + 1) \<le> 2 powi e"
      by (intro power_int_increasing) auto
    with b(2) assms(1) show False by linarith
  qed
  moreover have "\<not> e < ilog2 x"
  proof
    assume "e < ilog2 x"
    then have "(2::rat) powi (e + 1) \<le> 2 powi ilog2 x"
      by (intro power_int_increasing) auto
    with b(1) assms(2) show False by linarith
  qed
  ultimately show ?thesis by linarith
qed

lemma ilog2_mono:
  assumes "0 < x" "x \<le> y"
  shows "ilog2 x \<le> ilog2 y"
proof (rule ccontr)
  assume "\<not> ilog2 x \<le> ilog2 y"
  then have "(2::rat) powi (ilog2 y + 1) \<le> 2 powi ilog2 x"
    by (intro power_int_increasing) auto
  moreover have "0 < y" using assms by linarith
  ultimately show False
    using ilog2_bounds[OF assms(1)] ilog2_bounds[OF \<open>0 < y\<close>] assms(2) by linarith
qed

section \<open>Rounding to an integer\<close>

lemma rhe_bounds: "of_int (round_half_even y) - 1 / 2 \<le> y" "y \<le> of_int (round_half_even y) + 1 / 2"
  unfolding round_half_even_def Let_def by (auto; linarith)+

lemma rhe_of_int: "round_half_even (of_int n) = n"
  by (simp add: round_half_even_def)

lemma rhe_le: "y \<le> of_int n \<Longrightarrow> round_half_even y \<le> n"
  unfolding round_half_even_def Let_def
  by (auto simp: floor_le_iff le_floor_iff; linarith)

lemma rhe_ge: "of_int n \<le> y \<Longrightarrow> n \<le> round_half_even y"
  unfolding round_half_even_def Let_def
  by (auto simp: le_floor_iff; linarith)

lemma rhe_mono: 
  assumes "x \<le> y" shows "round_half_even x \<le> round_half_even y"
proof (cases "\<lfloor>x\<rfloor> = \<lfloor>y\<rfloor>")
  case True
  with assms show ?thesis
    unfolding round_half_even_def Let_def by auto
next
  case False
  with assms have "\<lfloor>x\<rfloor> + 1 \<le> \<lfloor>y\<rfloor>"
    using floor_mono[OF assms] by linarith
  moreover have "round_half_even x \<le> \<lfloor>x\<rfloor> + 1"
    unfolding round_half_even_def Let_def by auto
  moreover have "\<lfloor>y\<rfloor> \<le> round_half_even y"
    unfolding round_half_even_def Let_def by auto
  ultimately show ?thesis by linarith
qed

section \<open>Rounding to a double\<close>

lemma quantum_pos:
  assumes "0 < x"
  shows "quantum x = max (- 1074) (ilog2 x - 52)"
  using assms by (simp add: quantum_def)

lemma quantum_mono:
  assumes "0 < x" "x \<le> y"
  shows "quantum x \<le> quantum y"
proof -
  have "0 < y" using assms by linarith
  with assms ilog2_mono[OF assms] show ?thesis
    by (simp add: quantum_pos)
qed

lemma nearest_nonneg:
  assumes "0 \<le> x"
  shows "0 \<le> nearest x"
proof -
  have "of_int 0 \<le> x / 2 powi quantum x" using assms by simp
  then have "0 \<le> round_half_even (x / 2 powi quantum x)" by (rule rhe_ge)
  then show ?thesis by (simp add: nearest_def)
qed

lemma nearest_le_grid:
  assumes "x \<le> of_int n * 2 powi quantum x"
  shows "nearest x \<le> of_int n * 2 powi quantum x"
proof -
  have p: "(0::rat) < 2 powi quantum x" by simp
  from assms have "x / 2 powi quantum x \<le> of_int n"
    using p by (simp add: pos_divide_le_eq)
  then have "round_half_even (x / 2 powi quantum x) \<le> n" by (rule rhe_le)
  then have "(of_int (round_half_even (x / 2 powi quantum x)) :: rat) \<le> of_int n"
    by (simp only: of_int_le_iff)
  then show ?thesis
    unfolding nearest_def using p by (simp only: mult_le_cancel_right_pos)
qed

lemma nearest_ge_grid:
  assumes "of_int n * 2 powi quantum x \<le> x"
  shows "of_int n * 2 powi quantum x \<le> nearest x"
proof -
  have p: "(0::rat) < 2 powi quantum x" by simp
  from assms have "of_int n \<le> x / 2 powi quantum x"
    using p by (simp add: pos_le_divide_eq)
  then have "n \<le> round_half_even (x / 2 powi quantum x)" by (rule rhe_ge)
  then have "(of_int n :: rat) \<le> of_int (round_half_even (x / 2 powi quantum x))"
    by (simp only: of_int_le_iff)
  then show ?thesis
    unfolding nearest_def using p by (simp only: mult_le_cancel_right_pos)
qed

lemma pow2_grid:
  assumes "e \<le> k"
  shows "(2::rat) powi k = of_int (2 ^ nat (k - e)) * 2 powi e"
proof -
  have "(2::rat) powi k = 2 powi (k - e) * 2 powi e"
    by (simp add: power_int_add[symmetric])
  also have "(2::rat) powi (k - e) = of_int (2 ^ nat (k - e))"
    using assms by (simp add: power_int_def)
  finally show ?thesis .
qed

lemma nearest_mono:
  assumes "0 < x" "x \<le> y"
  shows "nearest x \<le> nearest y"
proof -
  have y: "0 < y" using assms by linarith
  have qm: "quantum x \<le> quantum y" by (rule quantum_mono[OF assms])
  show ?thesis
  proof (cases "quantum x = quantum y")
    case True
    have p: "(0::rat) < 2 powi quantum y" by simp
    have "x / 2 powi quantum y \<le> y / 2 powi quantum y"
      using assms(2) by (intro divide_right_mono) simp_all
    then have "round_half_even (x / 2 powi quantum y) \<le> round_half_even (y / 2 powi quantum y)"
      by (rule rhe_mono)
    then have "(of_int (round_half_even (x / 2 powi quantum y)) :: rat)
        \<le> of_int (round_half_even (y / 2 powi quantum y))"
      by (simp only: of_int_le_iff)
    then show ?thesis
      unfolding nearest_def True using p by (simp only: mult_le_cancel_right_pos)
  next
    case False
    with qm have lt: "quantum x < quantum y" by linarith
    define ky where "ky = ilog2 y"
    define kx where "kx = ilog2 x"
    have qy: "quantum y = ky - 52" and qy': "- 1074 \<le> quantum y"
      using lt y by (auto simp: quantum_pos ky_def quantum_def)
    have qx: "kx - 52 \<le> quantum x"
      using assms(1) by (simp add: quantum_pos kx_def)
    have kk: "kx + 1 \<le> ky" using qx qy lt by linarith
    have xB: "x \<le> 2 powi ky"
    proof -
      have "x < 2 powi (kx + 1)" unfolding kx_def by (rule ilog2_bounds[OF assms(1)])
      also have "(2::rat) powi (kx + 1) \<le> 2 powi ky"
        using kk by (intro power_int_increasing) auto
      finally show ?thesis by simp
    qed
    have By: "2 powi ky \<le> y" unfolding ky_def by (rule ilog2_bounds[OF y])
    have ex: "quantum x \<le> ky" using lt qy by linarith
    have ey: "quantum y \<le> ky" using qy by linarith
    note gx = pow2_grid[OF ex]
    note gy = pow2_grid[OF ey]
    have "nearest x \<le> of_int (2 ^ nat (ky - quantum x)) * 2 powi quantum x"
      by (rule nearest_le_grid) (use xB gx in simp)
    also have "\<dots> = 2 powi ky" using gx by simp
    also have "\<dots> = of_int (2 ^ nat (ky - quantum y)) * 2 powi quantum y" using gy by simp
    also have "\<dots> \<le> nearest y"
      by (rule nearest_ge_grid) (use By gy in simp)
    finally show ?thesis .
  qed
qed

lemma round_double_pos_cases:
  assumes "0 < x"
  shows "(round_double x = PInf \<and> 2 ^ 1024 \<le> nearest x)
       \<or> (round_double x = Fin (nearest x) \<and> nearest x < 2 ^ 1024)"
proof -
  have "0 \<le> nearest x" using assms by (intro nearest_nonneg) simp
  then show ?thesis using assms by (auto simp: round_double_def)
qed

lemma round_double_nonneg:
  assumes "0 \<le> x"
  shows "fle (Fin 0) (round_double x)"
proof (cases "x = 0")
  case True
  then show ?thesis by (simp add: round_double_def)
next
  case False
  with assms have x: "0 < x" by simp
  have "0 \<le> nearest x" using assms by (rule nearest_nonneg)
  with round_double_pos_cases[OF x] show ?thesis by auto
qed

lemma round_double_mono:
  assumes "0 \<le> x" "x \<le> y"
  shows "fle (round_double x) (round_double y)"
proof (cases "x = 0")
  case True
  have "0 \<le> y" using assms by linarith
  from round_double_nonneg[OF this] True show ?thesis
    by (simp add: round_double_def)
next
  case False
  with assms have x: "0 < x" and y: "0 < y" by linarith+
  have m: "nearest x \<le> nearest y" by (rule nearest_mono[OF x assms(2)])
  from round_double_pos_cases[OF x] round_double_pos_cases[OF y] m
  show ?thesis by auto
qed

section \<open>Evaluating and bounding the rounding\<close>

lemma floor_rat_numeral:
  "\<lfloor>numeral a / numeral b :: rat\<rfloor> = numeral a div numeral b"
proof -
  have "\<lfloor>of_int (numeral a) / of_int (numeral b) :: rat\<rfloor> = numeral a div numeral b"
    by (rule floor_divide_of_int_eq)
  then show ?thesis by (simp only: of_int_numeral)
qed

lemma quantum_normal:
  assumes "2 powi k \<le> \<bar>x\<bar>" "\<bar>x\<bar> < 2 powi (k + 1)" "- 1022 \<le> k"
  shows "quantum x = k - 52"
proof -
  have "ilog2 \<bar>x\<bar> = k" using assms(1,2) by (rule ilog2_unique)
  with assms(3) show ?thesis by (simp add: quantum_def)
qed

lemma round_double_eval:
  assumes lo: "2 powi k \<le> \<bar>x\<bar>" and hi: "\<bar>x\<bar> < 2 powi (k + 1)"
    and k: "- 1022 \<le> k" "k \<le> 1022"
    and m: "round_half_even (x / 2 powi (k - 52)) = m"
    and r: "r = of_int m * 2 powi (k - 52)"
  shows "round_double x = Fin r"
proof -
  have q: "quantum x = k - 52" by (rule quantum_normal[OF lo hi k(1)])
  have n: "nearest x = r" by (simp add: nearest_def q m r)
  have x0: "x \<noteq> 0"
  proof
    assume "x = 0"
    with lo have "(2::rat) powi k \<le> 0" by simp
    moreover have "(0::rat) < 2 powi k" by simp
    ultimately show False by linarith
  qed
  have p: "(0::rat) < 2 powi (k - 52)" by simp
  have s: "(2::rat) powi (k + 1) = of_int (2 ^ 53) * 2 powi (k - 52)"
    using pow2_grid[of "k - 52" "k + 1"] by simp
  have "x \<le> of_int (2 ^ 53) * 2 powi (k - 52)" using hi s by linarith
  then have "x / 2 powi (k - 52) \<le> of_int (2 ^ 53)"
    using p by (simp add: pos_divide_le_eq)
  then have u: "m \<le> 2 ^ 53" unfolding m[symmetric] by (rule rhe_le)
  have "of_int (- (2 ^ 53)) * 2 powi (k - 52) \<le> x" using hi s by simp
  then have "of_int (- (2 ^ 53)) \<le> x / 2 powi (k - 52)"
    using p by (simp only: pos_le_divide_eq)
  then have l: "- (2 ^ 53) \<le> m" unfolding m[symmetric] by (rule rhe_ge)
  from u l have "\<bar>m\<bar> \<le> 2 ^ 53" by linarith
  then have "\<bar>(of_int m :: rat)\<bar> \<le> of_int (2 ^ 53)"
    by (simp only: of_int_abs[symmetric] of_int_le_iff)
  then have "\<bar>r\<bar> \<le> of_int (2 ^ 53) * 2 powi (k - 52)"
    unfolding r abs_mult using p by (simp add: mult_right_mono)
  also have "\<dots> = 2 powi (k + 1)" using s by simp
  also have "\<dots> \<le> 2 powi 1023"
    using k(2) by (intro power_int_increasing) auto
  also have "\<dots> < (2::rat) ^ 1024" by simp
  finally have "\<not> 2 ^ 1024 \<le> \<bar>nearest x\<bar>" using n by simp
  with x0 n show ?thesis by (simp add: round_double_def)
qed

lemma nearest_error:
  assumes "2 powi (- 1022) \<le> x"
  shows "\<bar>nearest x - x\<bar> \<le> x / 2 ^ 53"
proof -
  have x: "0 < x" using assms by (rule less_le_trans[rotated]) simp
  define k where "k = ilog2 x"
  have "ilog2 (2 powi (- 1022)) = - 1022"
    by (rule ilog2_unique) (simp_all add: power_int_increasing)
  with ilog2_mono[OF _ assms] have k: "- 1022 \<le> k" by (simp add: k_def)
  have lo: "2 powi k \<le> x" and hi: "x < 2 powi (k + 1)"
    unfolding k_def by (rule ilog2_bounds[OF x])+
  have q: "quantum x = k - 52"
    using quantum_normal[of k x] lo hi k x by simp
  define y where "y = x / 2 powi (k - 52)"
  define m where "m = round_half_even y"
  have p: "(0::rat) < 2 powi (k - 52)" by simp
  have xy: "x = y * 2 powi (k - 52)" by (simp add: y_def)
  have n: "nearest x = of_int m * 2 powi (k - 52)"
    by (simp add: nearest_def q m_def y_def)
  have "\<bar>of_int m - y\<bar> \<le> 1 / 2"
    using rhe_bounds[of y] unfolding m_def by linarith
  then have "\<bar>of_int m - y\<bar> * 2 powi (k - 52) \<le> 1 / 2 * 2 powi (k - 52)"
    using p by (intro mult_right_mono) simp_all
  moreover have "\<bar>nearest x - x\<bar> = \<bar>of_int m - y\<bar> * 2 powi (k - 52)"
  proof -
    have "nearest x - x = (of_int m - y) * 2 powi (k - 52)"
      unfolding n using xy by (simp add: algebra_simps)
    then show ?thesis by (simp add: abs_mult)
  qed
  moreover have "1 / 2 * (2::rat) powi (k - 52) = 2 powi k / 2 ^ 53"
  proof -
    have "(2::rat) powi k = of_int (2 ^ nat (k - (k - 52))) * 2 powi (k - 52)"
      by (rule pow2_grid) simp
    then show ?thesis by simp
  qed
  moreover have "(2::rat) powi k / 2 ^ 53 \<le> x / 2 ^ 53"
    using lo by (intro divide_right_mono) simp_all
  ultimately show ?thesis by linarith
qed

section \<open>Relative error of a chain of roundings\<close>

lemma lo_bounds: "(0::rat) \<le> 1 - 1 / 2 ^ 53" "(1::rat) - 1 / 2 ^ 53 \<le> 1"
  by simp_all

lemma hi_bounds: "(1::rat) \<le> 1 + 1 / 2 ^ 53" "(0::rat) \<le> 1 + 1 / 2 ^ 53"
  by simp_all

lemma lo_pow: "(0::rat) \<le> (1 - 1 / 2 ^ 53) ^ n" "((1::rat) - 1 / 2 ^ 53) ^ n \<le> 1"
  by (simp_all add: power_le_one)

lemma hi_pow: "(1::rat) \<le> (1 + 1 / 2 ^ 53) ^ n"
  by (simp add: one_le_power)

lemma rounded_refl: "rounded 0 x x"
  by (simp add: rounded_def)

lemma rounded_nonneg:
  assumes "rounded n x y" "0 \<le> x"
  shows "0 \<le> y"
proof -
  have "0 \<le> x * (1 - 1 / 2 ^ 53) ^ n"
    using assms(2) lo_pow(1) by (rule mult_nonneg_nonneg)
  with assms(1) show ?thesis by (simp add: rounded_def)
qed

lemma rounded_mono:
  assumes "rounded n x y" "0 \<le> x" "n \<le> m"
  shows "rounded m x y"
proof -
  have "((1::rat) - 1 / 2 ^ 53) ^ m \<le> (1 - 1 / 2 ^ 53) ^ n"
    using assms(3) lo_bounds by (rule power_decreasing)
  then have "x * (1 - 1 / 2 ^ 53) ^ m \<le> x * (1 - 1 / 2 ^ 53) ^ n"
    using assms(2) by (rule mult_left_mono)
  moreover have "((1::rat) + 1 / 2 ^ 53) ^ n \<le> (1 + 1 / 2 ^ 53) ^ m"
    using assms(3) hi_bounds(1) by (rule power_increasing)
  then have "x * (1 + 1 / 2 ^ 53) ^ n \<le> x * (1 + 1 / 2 ^ 53) ^ m"
    using assms(2) by (rule mult_left_mono)
  ultimately show ?thesis using assms(1) by (simp add: rounded_def)
qed

lemma rounded_mult:
  assumes a: "rounded n a a'" "0 \<le> a" and b: "rounded m b b'" "0 \<le> b"
  shows "rounded (n + m) (a * b) (a' * b')"
proof -
  have a': "0 \<le> a'" and b': "0 \<le> b'"
    using rounded_nonneg[OF a] rounded_nonneg[OF b] by simp_all
  have la: "0 \<le> a * (1 - 1 / 2 ^ 53) ^ n" and lb: "0 \<le> b * (1 - 1 / 2 ^ 53) ^ m"
    using a(2) b(2) lo_pow(1) by (simp_all add: mult_nonneg_nonneg)
  have "(a * (1 - 1 / 2 ^ 53) ^ n) * (b * (1 - 1 / 2 ^ 53) ^ m) \<le> a' * b'"
    using a(1) b(1) la lb b' unfolding rounded_def by (intro mult_mono) simp_all
  moreover have "a' * b' \<le> (a * (1 + 1 / 2 ^ 53) ^ n) * (b * (1 + 1 / 2 ^ 53) ^ m)"
    using a(1) b(1) a' b' a(2) b(2) unfolding rounded_def
    by (intro mult_mono) (simp_all add: mult_nonneg_nonneg)
  ultimately show ?thesis
    by (simp add: rounded_def power_add mult_ac)
qed

lemma rounded_one_plus:
  assumes "rounded n x y" "0 \<le> x"
  shows "rounded n (1 + x) (1 + y)"
proof -
  have "(1 + x) * (1 - 1 / 2 ^ 53) ^ n = (1 - 1 / 2 ^ 53) ^ n + x * (1 - 1 / 2 ^ 53) ^ n"
    by (simp add: algebra_simps)
  also have "\<dots> \<le> 1 + y"
    using assms(1) lo_pow(2)[of n] unfolding rounded_def by linarith
  finally have 1: "(1 + x) * (1 - 1 / 2 ^ 53) ^ n \<le> 1 + y" .
  have "1 + y \<le> (1 + 1 / 2 ^ 53) ^ n + x * (1 + 1 / 2 ^ 53) ^ n"
    using assms(1) hi_pow[of n] unfolding rounded_def by linarith
  also have "\<dots> = (1 + x) * (1 + 1 / 2 ^ 53) ^ n"
    by (simp add: algebra_simps)
  finally show ?thesis using 1 by (simp add: rounded_def)
qed

lemma nearest_rel:
  assumes "2 powi (- 1022) \<le> y"
  shows "y * (1 - 1 / 2 ^ 53) \<le> nearest y" "nearest y \<le> y * (1 + 1 / 2 ^ 53)"
proof -
  define d where "d = y / 2 ^ 53"
  have "\<bar>nearest y - y\<bar> \<le> d"
    unfolding d_def by (rule nearest_error[OF assms])
  then have e: "y - d \<le> nearest y" "nearest y \<le> y + d"
    by linarith+
  have "y * (1 - 1 / 2 ^ 53) = y - d" "y * (1 + 1 / 2 ^ 53) = y + d"
    by (simp_all add: d_def algebra_simps)
  with e show "y * (1 - 1 / 2 ^ 53) \<le> nearest y" "nearest y \<le> y * (1 + 1 / 2 ^ 53)"
    by simp_all
qed

lemma rounded_nearest:
  assumes w: "rounded n x y" and x: "0 \<le> x" and y: "2 powi (- 1022) \<le> y"
  shows "rounded (Suc n) x (nearest y)"
proof -
  have "x * (1 - 1 / 2 ^ 53) ^ n * (1 - 1 / 2 ^ 53) \<le> y * (1 - 1 / 2 ^ 53)"
    using w lo_bounds(1) unfolding rounded_def by (intro mult_right_mono) simp_all
  also have "\<dots> \<le> nearest y" by (rule nearest_rel[OF y])
  finally have 1: "x * (1 - 1 / 2 ^ 53) ^ Suc n \<le> nearest y" by (simp add: mult_ac)
  have "nearest y \<le> y * (1 + 1 / 2 ^ 53)" by (rule nearest_rel[OF y])
  also have "\<dots> \<le> x * (1 + 1 / 2 ^ 53) ^ n * (1 + 1 / 2 ^ 53)"
    using w hi_bounds(2) unfolding rounded_def by (intro mult_right_mono) simp_all
  finally have "nearest y \<le> x * (1 + 1 / 2 ^ 53) ^ Suc n" by (simp add: mult_ac)
  with 1 show ?thesis by (simp add: rounded_def)
qed

lemma pow7: "(1::rat) - 8 / 2 ^ 53 \<le> (1 - 1 / 2 ^ 53) ^ 7" "((1::rat) + 1 / 2 ^ 53) ^ 7 \<le> 1 + 8 / 2 ^ 53"
  by (simp_all add: power_divide)

lemma round_double_Fin:
  assumes "0 < y" "nearest y < 2 ^ 1024"
  shows "round_double y = Fin (nearest y)"
  using round_double_pos_cases[OF assms(1)] assms(2) by auto

lemma rounded_half:
  assumes "rounded n x y" "0 \<le> x" "n \<le> 7"
  shows "x / 2 \<le> y" "y \<le> 2 * x"
proof -
  have w: "rounded 7 x y" by (rule rounded_mono[OF assms])
  have "x * (1 / 2) \<le> x * (1 - 1 / 2 ^ 53) ^ 7"
    using pow7(1) assms(2) by (intro mult_left_mono) simp_all
  with w show "x / 2 \<le> y" by (simp add: rounded_def)
  have "x * (1 + 1 / 2 ^ 53) ^ 7 \<le> x * 2"
    using pow7(2) assms(2) by (intro mult_left_mono) simp_all
  with w show "y \<le> 2 * x" by (simp add: rounded_def)
qed

lemma round_step:
  assumes w: "rounded n x y" and n: "n \<le> 6"
    and x: "2 powi (- 1021) \<le> x" "x \<le> 2 ^ 1022"
  shows "round_double y = Fin (nearest y)" "rounded (Suc n) x (nearest y)"
proof -
  have x0: "0 < x" using x(1) by (rule less_le_trans[rotated]) simp
  then have x0': "0 \<le> x" by simp
  have "n \<le> 7" using n by simp
  from rounded_half(1)[OF w x0' this] have y2: "x / 2 \<le> y" .
  have "(2::rat) powi (- 1022) = 2 powi (- 1021) / 2" by simp
  also have "\<dots> \<le> x / 2" using x(1) by (rule divide_right_mono) simp
  finally have y: "2 powi (- 1022) \<le> y" using y2 by linarith
  have y0: "0 < y" using x0 y2 by linarith
  show r: "rounded (Suc n) x (nearest y)"
    by (rule rounded_nearest[OF w x0' y])
  have "Suc n \<le> 7" using n by simp
  from rounded_half(2)[OF r x0' this] have "nearest y \<le> 2 * x" .
  also have "\<dots> \<le> 2 * 2 ^ 1022" using x(2) by simp
  also have "\<dots> < (2::rat) ^ 1024" by simp
  finally show "round_double y = Fin (nearest y)"
    by (rule round_double_Fin[OF y0])
qed

lemma total_quantity_rounded:
  assumes c: "1 / 10 \<le> c" "c < 100" and ov: "ov = 0 \<or> 1 / 100 \<le> ov" "ov < 10"
    and q: "0 < q" and p: "1 / 2 ^ 512 \<le> p"
    and E: "exact_quantity p c q ov \<le> 2 ^ 50"
    and std: "complexity_coefficient std = c" and mtd: "overconsumption_percent mtd = ov"
  shows "\<exists>t. total_quantity std mtd (PInt q) (PFloat (Fin p)) = Inr (Fin t)
            \<and> rounded 7 (exact_quantity p c q ov) t"
proof -
  define Q :: rat where "Q = of_int q"
  have Q1: "1 \<le> Q" using q by (simp add: Q_def)
  have ov0: "0 \<le> ov" using ov(1) by auto
  have p0: "0 < p" using p by (rule less_le_trans[rotated]) simp
  have c0: "0 < c" using c(1) by simp
  have pc0: "0 < p * c" using p0 c0 by simp
  have E_eq: "exact_quantity p c q ov = p * c * Q * (1 + ov)"
    by (simp add: exact_quantity_def Q_def)
  have pc_lo': "1 / 2 ^ 512 * (1 / 10) \<le> p * c"
    using p c(1) by (intro mult_mono) simp_all
  have pc_lo: "2 powi (- 1021) \<le> p * c"
  proof -
    have "(2::rat) powi (- 1021) \<le> 1 / 2 ^ 512 * (1 / 10)" by simp
    with pc_lo' show ?thesis by linarith
  qed
  have Q0: "0 < Q" using Q1 by simp
  have pcQ0: "0 < p * c * Q" using pc0 Q0 by (rule mult_pos_pos)
  have pcQ_ge: "p * c \<le> p * c * Q"
  proof -
    have "p * c * 1 \<le> p * c * Q"
      using Q1 pc0 by (intro mult_left_mono) simp_all
    then show ?thesis by simp
  qed
  have E_ge: "p * c * Q \<le> p * c * Q * (1 + ov)"
  proof -
    have "p * c * Q * 1 \<le> p * c * Q * (1 + ov)"
      using ov0 pcQ0 by (intro mult_left_mono) simp_all
    then show ?thesis by simp
  qed
  have E50: "p * c * Q * (1 + ov) \<le> 2 ^ 50" using E E_eq by simp
  have pcQ_hi: "p * c * Q \<le> 2 ^ 50" using E_ge E50 by linarith
  have pc_hi: "p * c \<le> 2 ^ 50" using pcQ_ge pcQ_hi by linarith
  have Q_hi: "Q \<le> 2 ^ 1022"
  proof -
    have "Q * (1 / 2 ^ 512 * (1 / 10)) \<le> Q * (p * c)"
      using pc_lo' Q1 by (intro mult_left_mono) simp_all
    also have "\<dots> \<le> 2 ^ 50" using pcQ_hi by (simp add: mult_ac)
    finally have "Q \<le> 2 ^ 50 * (10 * 2 ^ 512)" by (simp add: field_simps)
    also have "\<dots> \<le> (2::rat) ^ 1022" by simp
    finally show ?thesis .
  qed
  \<comment> \<open>the coefficient\<close>
  define c' where "c' = nearest c"
  have "2 powi (- 1021) \<le> c" "c \<le> 2 ^ 1022"
    using c by simp_all
  from round_step[OF rounded_refl _ this]
  have c'1: "round_double c = Fin c'" and c'2: "rounded 1 c c'"
    by (simp_all add: c'_def)
  \<comment> \<open>base quantity\<close>
  define b where "b = nearest (p * c')"
  have "rounded (0 + 1) (p * c) (p * c')"
    using rounded_refl c'2 p0 c0 by (intro rounded_mult) simp_all
  then have "rounded 1 (p * c) (p * c')" by simp
  from round_step[OF this _ pc_lo] pc_hi
  have b1: "round_double (p * c') = Fin b" and b2: "rounded 2 (p * c) b"
    by (simp_all add: b_def numeral_2_eq_2)
  \<comment> \<open>the quantity\<close>
  define q' where "q' = nearest Q"
  have "2 powi (- 1021) \<le> Q" using Q1 by (rule order_trans[rotated]) simp
  from round_step[OF rounded_refl _ this Q_hi]
  have q'1: "round_double Q = Fin q'" and q'2: "rounded 1 Q q'"
    by (simp_all add: q'_def)
  define bq where "bq = nearest (b * q')"
  have "rounded (2 + 1) (p * c * Q) (b * q')"
    using b2 q'2 pc0 Q1 by (intro rounded_mult) simp_all
  then have w3: "rounded 3 (p * c * Q) (b * q')" by simp
  have "2 powi (- 1021) \<le> p * c * Q" "p * c * Q \<le> 2 ^ 1022"
    using pc_lo pcQ_ge pcQ_hi by simp_all
  from round_step[OF w3 _ this]
  have bq1: "round_double (b * q') = Fin bq" and bq2: "rounded 4 (p * c * Q) bq"
    by (simp_all add: bq_def eval_nat_numeral)
  \<comment> \<open>the overconsumption\<close>
  have "\<exists>ov'. round_double ov = Fin ov' \<and> rounded 1 ov ov'"
  proof (cases "ov = 0")
    case True
    then show ?thesis by (simp add: round_double_def rounded_def)
  next
    case False
    with ov have "2 powi (- 1021) \<le> ov" "ov \<le> 2 ^ 1022" by simp_all
    from round_step[OF rounded_refl _ this] show ?thesis by auto
  qed
  then obtain ov' where ov'1: "round_double ov = Fin ov'" and ov'2: "rounded 1 ov ov'"
    by blast
  define s where "s = nearest (1 + ov')"
  have w1: "rounded 1 (1 + ov) (1 + ov')" by (rule rounded_one_plus[OF ov'2 ov0])
  have "2 powi (- 1021) \<le> 1 + ov" "1 + ov \<le> 2 ^ 1022"
    using ov0 ov(2) by simp_all
  from round_step[OF w1 _ this]
  have s1: "round_double (1 + ov') = Fin s" and s2: "rounded 2 (1 + ov) s"
    by (simp_all add: s_def numeral_2_eq_2)
  \<comment> \<open>the total\<close>
  define t where "t = nearest (bq * s)"
  have "rounded (4 + 2) (p * c * Q * (1 + ov)) (bq * s)"
    using bq2 s2 pc0 Q1 ov0 by (intro rounded_mult) simp_all
  then have w6: "rounded 6 (p * c * Q * (1 + ov)) (bq * s)" by simp
  have "2 powi (- 1021) \<le> p * c * Q * (1 + ov)" "p * c * Q * (1 + ov) \<le> 2 ^ 1022"
    using pc_lo pcQ_ge E_ge E50 by simp_all
  from round_step[OF w6 _ this]
  have t1: "round_double (bq * s) = Fin t" and t2: "rounded 7 (p * c * Q * (1 + ov)) t"
    by (simp_all add: t_def eval_nat_numeral)
  have "total_quantity std mtd (PInt q) (PFloat (Fin p)) = Inr (Fin t)"
    by (simp add: total_quantity_def float_of_decimal_def float_of_int_def std mtd
        c'1 b1 q'1[unfolded Q_def] ov'1 s1 bq1 t1)
  with t2 E_eq show ?thesis by simp
qed

section \<open>Properties of \<open>total_quantity\<close>\<close>

lemma rounded7_close:
  assumes w: "rounded 7 x t" and x: "0 \<le> x" "x \<le> 2 ^ 50"
  shows "x - 1 \<le> t" "t \<le> x + 1"
proof -
  have "x * (1 - 8 / 2 ^ 53) \<le> x * (1 - 1 / 2 ^ 53) ^ 7"
    using pow7(1) x(1) by (rule mult_left_mono)
  moreover have "x * (1 - 8 / 2 ^ 53) = x - x / 2 ^ 50" by (simp add: algebra_simps)
  moreover have "x / 2 ^ 50 \<le> 1" using x(2) by simp
  ultimately show "x - 1 \<le> t" using w unfolding rounded_def by linarith
  have "x * (1 + 1 / 2 ^ 53) ^ 7 \<le> x * (1 + 8 / 2 ^ 53)"
    using pow7(2) x(1) by (rule mult_left_mono)
  moreover have "x * (1 + 8 / 2 ^ 53) = x + x / 2 ^ 50" by (simp add: algebra_simps)
  moreover have "x / 2 ^ 50 \<le> 1" using x(2) by simp
  ultimately show "t \<le> x + 1" using w unfolding rounded_def by linarith
qed

lemma rounded_pos:
  assumes "rounded n x t" "0 < x"
  shows "0 < t"
proof -
  have "0 < (1 - 1 / 2 ^ 53 :: rat) ^ n" by simp
  with assms(2) have "0 < x * (1 - 1 / 2 ^ 53) ^ n" by (rule mult_pos_pos)
  with assms(1) show ?thesis unfolding rounded_def by linarith
qed

lemma numeric_positive:
  assumes "numeric p s v" "0 < v"
  shows "1 / 10 ^ s \<le> v"
proof -
  define k where "k = \<lfloor>v * 10 ^ s\<rfloor>"
  from assms(1) have e: "of_int k = v * 10 ^ s"
    unfolding numeric_def k_def by blast
  have "0 < v * 10 ^ s" using assms(2) by simp
  then have "(0::rat) < of_int k" unfolding e .
  then have "1 \<le> k" by simp
  then have "(1::rat) \<le> of_int k" by (simp only: of_int_1_le_iff)
  then have "1 \<le> v * 10 ^ s" unfolding e .
  then show ?thesis by (simp add: field_simps)
qed

lemma numeric_below:
  assumes "numeric p s v"
  shows "v < 10 ^ (p - s)"
  using assms unfolding numeric_def by linarith

lemma find_distinct:
  assumes "r \<in> set rows" "distinct (map key rows)"
  shows "find (\<lambda>x. key x = key r) rows = Some r"
  using assms by (induction rows) auto

lemma calculate_material_quantity_success:
  assumes "find (\<lambda>t. st_type_name t = service_type) (service_types d) = Some std"
    and "find (\<lambda>t. mt_type_name t = material_type) (material_types d) = Some mtd"
    and "0 < q" "0 < p"
  shows "calculate_material_quantity d service_type material_type (PInt q) (PFloat (Fin p))
           = ([], PInt n)
         \<longleftrightarrow> (\<exists>t. total_quantity std mtd (PInt q) (PFloat (Fin p)) = Inr (Fin t) \<and> n = \<lceil>t\<rceil>)"
proof -
  have "ceil x = Inr n \<longleftrightarrow> (\<exists>t. x = Fin t \<and> n = \<lceil>t\<rceil>)" for x
    by (cases x) auto
  then show ?thesis
    using assms by (auto simp: calculate_material_quantity_def split: sum.splits)
qed

lemma fmul_Fin_D:
  assumes "fmul x y = Fin t"
  shows "\<exists>a b. x = Fin a \<and> y = Fin b \<and> round_double (a * b) = Fin t"
  using assms by (cases x; cases y) (simp_all add: inf_of_sign_def split: if_splits)

lemma fadd_Fin_D:
  assumes "fadd x y = Fin t"
  shows "\<exists>a b. x = Fin a \<and> y = Fin b \<and> round_double (a + b) = Fin t"
  using assms by (cases x; cases y) simp_all

lemma rd_mono_Fin:
  assumes "0 \<le> x" "x \<le> y" "round_double x = Fin a" "round_double y = Fin b"
  shows "a \<le> b"
  using round_double_mono[OF assms(1,2)] assms(3,4) by simp

lemma rd_nonneg_Fin:
  assumes "0 \<le> x" "round_double x = Fin a"
  shows "0 \<le> a"
  using round_double_nonneg[OF assms(1)] assms(2) by simp

lemma float_of_int_Fin_D:
  assumes "float_of_int n = Inr x"
  shows "\<exists>a. x = Fin a \<and> round_double (of_int n) = Fin a"
  using assms by (cases "round_double (of_int n)") (auto simp: float_of_int_def)

lemma total_quantity_mono:
  assumes t1: "total_quantity std mtd (PInt q1) (PFloat (Fin p1)) = Inr (Fin t1)"
    and t2: "total_quantity std mtd (PInt q2) (PFloat (Fin p2)) = Inr (Fin t2)"
    and c: "0 \<le> complexity_coefficient std" and ov: "0 \<le> overconsumption_percent mtd"
    and q: "0 < q1" "q1 \<le> q2" and p: "0 < p1" "p1 \<le> p2"
  shows "t1 \<le> t2"
proof -
  define fc where "fc = round_double (complexity_coefficient std)"
  define fs where "fs = fadd (Fin 1) (round_double (overconsumption_percent mtd))"
  from t1 obtain fq1 where fq1: "float_of_int q1 = Inr fq1"
    and m1: "fmul (fmul (fmul (Fin p1) fc) fq1) fs = Fin t1"
    by (auto simp: total_quantity_def float_of_decimal_def fc_def fs_def split: sum.splits)
  from t2 obtain fq2 where fq2: "float_of_int q2 = Inr fq2"
    and m2: "fmul (fmul (fmul (Fin p2) fc) fq2) fs = Fin t2"
    by (auto simp: total_quantity_def float_of_decimal_def fc_def fs_def split: sum.splits)
  from fmul_Fin_D[OF m1] obtain bq1 s where
    x1: "fmul (fmul (Fin p1) fc) fq1 = Fin bq1" and s: "fs = Fin s"
    and r1: "round_double (bq1 * s) = Fin t1" by blast
  from fmul_Fin_D[OF m2] s obtain bq2 where
    x2: "fmul (fmul (Fin p2) fc) fq2 = Fin bq2"
    and r2: "round_double (bq2 * s) = Fin t2" by auto
  from fmul_Fin_D[OF x1] obtain b1 q1' where
    y1: "fmul (Fin p1) fc = Fin b1" and q1': "fq1 = Fin q1'"
    and rb1: "round_double (b1 * q1') = Fin bq1" by blast
  from fmul_Fin_D[OF x2] obtain b2 q2' where
    y2: "fmul (Fin p2) fc = Fin b2" and q2': "fq2 = Fin q2'"
    and rb2: "round_double (b2 * q2') = Fin bq2" by blast
  from fmul_Fin_D[OF y1] obtain c' where
    c': "fc = Fin c'" and rc1: "round_double (p1 * c') = Fin b1" by auto
  from fmul_Fin_D[OF y2] c' have rc2: "round_double (p2 * c') = Fin b2" by auto
  from float_of_int_Fin_D[OF fq1] q1' have rq1: "round_double (of_int q1) = Fin q1'" by auto
  from float_of_int_Fin_D[OF fq2] q2' have rq2: "round_double (of_int q2) = Fin q2'" by auto
  from fadd_Fin_D[OF s[unfolded fs_def]] obtain ov' where
    ov': "round_double (overconsumption_percent mtd) = Fin ov'"
    and rs: "round_double (1 + ov') = Fin s" by auto
  have c'0: "0 \<le> c'" using rd_nonneg_Fin[OF c] c' by (simp add: fc_def)
  have ov'0: "0 \<le> ov'" by (rule rd_nonneg_Fin[OF ov ov'])
  have s0: "0 \<le> s" using rd_nonneg_Fin[OF _ rs] ov'0 by simp
  have q1'0: "0 \<le> q1'" using rd_nonneg_Fin[OF _ rq1] q(1) by simp
  have qq: "q1' \<le> q2'" using rd_mono_Fin[OF _ _ rq1 rq2] q by simp
  have pc1: "0 \<le> p1 * c'" using p(1) c'0 by simp
  have "p1 * c' \<le> p2 * c'" using p(2) c'0 by (rule mult_right_mono)
  from rd_mono_Fin[OF pc1 this rc1 rc2] have bb: "b1 \<le> b2" .
  have b10: "0 \<le> b1" by (rule rd_nonneg_Fin[OF pc1 rc1])
  have bq1': "0 \<le> b1 * q1'" using b10 q1'0 by simp
  have "b1 * q1' \<le> b2 * q2'" using bb qq b10 q1'0 by (intro mult_mono) simp_all
  from rd_mono_Fin[OF bq1' this rb1 rb2] have bqbq: "bq1 \<le> bq2" .
  have bq10: "0 \<le> bq1" by (rule rd_nonneg_Fin[OF bq1' rb1])
  have l: "0 \<le> bq1 * s" using bq10 s0 by simp
  have "bq1 * s \<le> bq2 * s" using bqbq s0 by (rule mult_right_mono)
  from rd_mono_Fin[OF l this r1 r2] show ?thesis .
qed

section \<open>Evaluations of \<open>calculate_material_quantity\<close>\<close>

lemma ceiling_rat_numeral:
  "\<lceil>numeral a / numeral b :: rat\<rceil> = - ((- numeral a) div numeral b)"
proof -
  have "\<lfloor>of_int (- numeral a) / of_int (numeral b) :: rat\<rfloor> = (- numeral a) div numeral b"
    by (rule floor_divide_of_int_eq)
  then show ?thesis by (simp add: ceiling_def)
qed

lemma rd_0: "round_double 0 = Fin 0"
  by (simp add: round_double_def)

lemma rd_3: "round_double 3 = Fin 3"
  by (rule round_double_eval[where k = "1" and m = 6755399441055744])
     (simp_all add: round_half_even_def Let_def floor_rat_numeral)

lemma rd_3_2: "round_double (3 / 2) = Fin (3 / 2)"
  by (rule round_double_eval[where k = "0" and m = 6755399441055744])
     (simp_all add: round_half_even_def Let_def floor_rat_numeral)

lemma rd_1_10: "round_double (1 / 10) = Fin (3602879701896397 / 36028797018963968)"
  by (rule round_double_eval[where k = "- 4" and m = 7205759403792794])
     (simp_all add: round_half_even_def Let_def floor_rat_numeral)

lemma rd_1_1: "round_double (39631676720860365 / 36028797018963968) = Fin (2476979795053773 / 2251799813685248)"
  by (rule round_double_eval[where k = "0" and m = 4953959590107546])
     (simp_all add: round_half_even_def Let_def floor_rat_numeral)

lemma rd_3_10: "round_double (3 / 10) = Fin (5404319552844595 / 18014398509481984)"
  by (rule round_double_eval[where k = "- 2" and m = 5404319552844595])
     (simp_all add: round_half_even_def Let_def floor_rat_numeral)

lemma rd_1: "round_double (1) = Fin (1)"
  by (rule round_double_eval[where k = "0" and m = 4503599627370496])
     (simp_all add: round_half_even_def Let_def floor_rat_numeral)

lemma rd_v5: "round_double (40564819207303341148134477730065 / 40564819207303340847894502572032) = Fin (1)"
  by (rule round_double_eval[where k = "0" and m = 4503599627370496])
     (simp_all add: round_half_even_def Let_def floor_rat_numeral)

lemma rd_4: "round_double (4) = Fin (4)"
  by (rule round_double_eval[where k = "2" and m = 4503599627370496])
     (simp_all add: round_half_even_def Let_def floor_rat_numeral)

lemma rd_9_2: "round_double (9 / 2) = Fin (9 / 2)"
  by (rule round_double_eval[where k = "2" and m = 5066549580791808])
     (simp_all add: round_half_even_def Let_def floor_rat_numeral)

lemma rd_9: "round_double (9) = Fin (9)"
  by (rule round_double_eval[where k = "3" and m = 5066549580791808])
     (simp_all add: round_half_even_def Let_def floor_rat_numeral)

lemma rd_v2: "round_double (22292818155483957 / 2251799813685248) = Fin (5573204538870989 / 562949953421312)"
  by (rule round_double_eval[where k = "3" and m = 5573204538870989])
     (simp_all add: round_half_even_def Let_def floor_rat_numeral)

lemma rd_12: "round_double (12) = Fin (12)"
  by (rule round_double_eval[where k = "3" and m = 6755399441055744])
     (simp_all add: round_half_even_def Let_def floor_rat_numeral)

lemma rd_v1: "round_double (7430939385161319 / 562949953421312) = Fin (7430939385161319 / 562949953421312)"
  by (rule round_double_eval[where k = "3" and m = 7430939385161319])
     (simp_all add: round_half_even_def Let_def floor_rat_numeral)

lemma rd_27_2: "round_double (27 / 2) = Fin (27 / 2)"
  by (rule round_double_eval[where k = "3" and m = 7599824371187712])
     (simp_all add: round_half_even_def Let_def floor_rat_numeral)

lemma rd_v3: "round_double (66878454466451871 / 4503599627370496) = Fin (2089951702076621 / 140737488355328)"
  by (rule round_double_eval[where k = "3" and m = 8359806808306484])
     (simp_all add: round_half_even_def Let_def floor_rat_numeral)

lemma rd_30: "round_double (30) = Fin (30)"
  by (rule round_double_eval[where k = "4" and m = 8444249301319680])
     (simp_all add: round_half_even_def Let_def floor_rat_numeral)

lemma rd_90: "round_double (90) = Fin (90)"
  by (rule round_double_eval[where k = "6" and m = 6333186975989760])
     (simp_all add: round_half_even_def Let_def floor_rat_numeral)

lemma rd_v4: "round_double (111464090777419785 / 1125899906842624) = Fin (6966505673588737 / 70368744177664)"
  by (rule round_double_eval[where k = "6" and m = 6966505673588737])
     (simp_all add: round_half_even_def Let_def floor_rat_numeral)

lemmas rd_quantity = rd_0 rd_1_10 rd_3_10 rd_1 rd_v5 rd_1_1 rd_3_2 rd_3 rd_4 rd_9_2 rd_9 rd_v2 rd_12 rd_v1 rd_27_2 rd_v3 rd_30 rd_90 rd_v4

lemma example_quantity_2_3:
  "calculate_material_quantity example_db ''A'' ''B'' (PInt 3) (PFloat (Fin 2)) = ([], PInt 10)"
  by (simp add: calculate_material_quantity_def example_db_def total_quantity_def
        float_of_int_def float_of_decimal_def rd_quantity ceiling_rat_numeral)

lemma example_quantity_2_4:
  "calculate_material_quantity example_db ''A'' ''B'' (PInt 4) (PFloat (Fin 2)) = ([], PInt 14)"
  by (simp add: calculate_material_quantity_def example_db_def total_quantity_def
        float_of_int_def float_of_decimal_def rd_quantity ceiling_rat_numeral)

lemma example_quantity_3_3:
  "calculate_material_quantity example_db ''A'' ''B'' (PInt 3) (PFloat (Fin 3)) = ([], PInt 15)"
  by (simp add: calculate_material_quantity_def example_db_def total_quantity_def
        float_of_int_def float_of_decimal_def rd_quantity ceiling_rat_numeral)


lemma rounding_quantity:
  "calculate_material_quantity rounding_db ''V'' ''X'' (PInt 1)
     (PFloat (Fin (7505999378950827 / 2251799813685248))) = ([], PInt 1)"
  by (simp add: calculate_material_quantity_def rounding_db_def total_quantity_def
        float_of_int_def float_of_decimal_def rd_quantity ceiling_rat_numeral)

section \<open>The quantity against the exact product\<close>

lemma quantity_rounded:
  assumes std: "std \<in> set (service_types d)" "distinct (map st_type_name (service_types d))"
    and mtd: "mtd \<in> set (material_types d)" "distinct (map mt_type_name (material_types d))"
    and c: "numeric 3 1 (complexity_coefficient std)" "0 < complexity_coefficient std"
    and ov: "numeric 3 2 (overconsumption_percent mtd)" "0 \<le> overconsumption_percent mtd"
    and q: "0 < quantity" and p: "1 / 2 ^ 512 \<le> service_params"
    and E: "exact_quantity service_params (complexity_coefficient std) quantity
              (overconsumption_percent mtd) \<le> 2 ^ 50"
  shows "\<exists>t. calculate_material_quantity d (st_type_name std) (mt_type_name mtd)
                (PInt quantity) (PFloat (Fin service_params)) = ([], PInt \<lceil>t\<rceil>)
           \<and> rounded 7 (exact_quantity service_params (complexity_coefficient std) quantity
                 (overconsumption_percent mtd)) t"
proof -
  have c1: "1 / 10 \<le> complexity_coefficient std"
    using numeric_positive[OF c] by simp
  have c2: "complexity_coefficient std < 100"
    using numeric_below[OF c(1)] by simp
  have o1: "overconsumption_percent mtd = 0 \<or> 1 / 100 \<le> overconsumption_percent mtd"
    using numeric_positive[OF ov(1)] ov(2) by (cases "overconsumption_percent mtd = 0") simp_all
  have o2: "overconsumption_percent mtd < 10"
    using numeric_below[OF ov(1)] by simp
  from total_quantity_rounded[OF c1 c2 o1 o2 q p E refl refl]
  obtain t where t: "total_quantity std mtd (PInt quantity) (PFloat (Fin service_params)) = Inr (Fin t)"
    and r: "rounded 7 (exact_quantity service_params (complexity_coefficient std) quantity
                 (overconsumption_percent mtd)) t"
    by blast
  have p0: "0 < service_params" using p by (rule less_le_trans[rotated]) simp
  have "calculate_material_quantity d (st_type_name std) (mt_type_name mtd)
          (PInt quantity) (PFloat (Fin service_params)) = ([], PInt \<lceil>t\<rceil>)"
    using calculate_material_quantity_success[OF find_distinct[OF std] find_distinct[OF mtd] q p0] t
    by blast
  with r show ?thesis by blast
qed



lemma rd_params:
  "round_double (7505999378950827 / 2251799813685248) = Fin (7505999378950827 / 2251799813685248)"
  by (rule round_double_eval[where k = "1" and m = 7505999378950827])
     (simp_all add: round_half_even_def Let_def floor_rat_numeral)



text \<open>
  C3, as amended. For a service type and a material type of the catalog with a positive
  \<open>Numeric(3, 1)\<close> coefficient and a non-negative \<open>Numeric(3, 2)\<close> overconsumption:
  when the quantity is a positive integer, \<^verbatim>\<open>service_params\<close> is at least
  \<open>1 / 2 ^ 512\<close> and the exact product with the overconsumption is at most \<open>2 ^ 50\<close>,
  \<open>calculate_material_quantity\<close> returns a positive integer that is at least
  \<open>ceiling (serviceParams \<times> complexityCoefficient \<times> quantity) - 1\<close>; and whenever two
  calls succeed, the returned value is monotonically non-decreasing in the quantity
  and in \<^verbatim>\<open>service_params\<close>, the other inputs and the catalog being the same.
\<close>

theorem material_quantity_bounds_and_monotone:
  assumes std: "std \<in> set (service_types d)" "distinct (map st_type_name (service_types d))"
    and mtd: "mtd \<in> set (material_types d)" "distinct (map mt_type_name (material_types d))"
    and c: "numeric 3 1 (complexity_coefficient std)" "0 < complexity_coefficient std"
    and ov: "numeric 3 2 (overconsumption_percent mtd)" "0 \<le> overconsumption_percent mtd"
  shows "(0 < quantity \<and> 1 / 2 ^ 512 \<le> service_params \<and>
          exact_quantity service_params (complexity_coefficient std) quantity
            (overconsumption_percent mtd) \<le> 2 ^ 50
          \<longrightarrow> (\<exists>n. calculate_material_quantity d (st_type_name std) (mt_type_name mtd)
                      (PInt quantity) (PFloat (Fin service_params)) = ([], PInt n)
                 \<and> 1 \<le> n
                 \<and> \<lceil>service_params * complexity_coefficient std * of_int quantity\<rceil> - 1 \<le> n))
       \<and> (\<forall>q1 q2 p n1 n2.
            0 < q1 \<and> q1 \<le> q2 \<and> 0 < p \<and>
            calculate_material_quantity d (st_type_name std) (mt_type_name mtd)
              (PInt q1) (PFloat (Fin p)) = ([], PInt n1) \<and>
            calculate_material_quantity d (st_type_name std) (mt_type_name mtd)
              (PInt q2) (PFloat (Fin p)) = ([], PInt n2)
            \<longrightarrow> n1 \<le> n2)
       \<and> (\<forall>p1 p2 q n1 n2.
            0 < p1 \<and> p1 \<le> p2 \<and> 0 < q \<and>
            calculate_material_quantity d (st_type_name std) (mt_type_name mtd)
              (PInt q) (PFloat (Fin p1)) = ([], PInt n1) \<and>
            calculate_material_quantity d (st_type_name std) (mt_type_name mtd)
              (PInt q) (PFloat (Fin p2)) = ([], PInt n2)
            \<longrightarrow> n1 \<le> n2)"
proof (intro conjI allI impI)
  assume a: "0 < quantity \<and> 1 / 2 ^ 512 \<le> service_params \<and>
          exact_quantity service_params (complexity_coefficient std) quantity
            (overconsumption_percent mtd) \<le> 2 ^ 50"
  define E where "E = exact_quantity service_params (complexity_coefficient std) quantity
                      (overconsumption_percent mtd)"
  define B where "B = service_params * complexity_coefficient std * of_int quantity"
  from a have q: "0 < quantity" and p: "1 / 2 ^ 512 \<le> service_params" and E50: "E \<le> 2 ^ 50"
    by (simp_all add: E_def)
  from quantity_rounded[OF std mtd c ov q p E50[unfolded E_def]] obtain t where
    t: "calculate_material_quantity d (st_type_name std) (mt_type_name mtd)
                (PInt quantity) (PFloat (Fin service_params)) = ([], PInt \<lceil>t\<rceil>)"
    and r: "rounded 7 E t"
    unfolding E_def by blast
  have p0: "0 < service_params" using p by (rule less_le_trans[rotated]) simp
  have B0: "0 < B" unfolding B_def using p0 c(2) q by simp
  have EB: "E = B * (1 + overconsumption_percent mtd)"
    by (simp add: E_def B_def exact_quantity_def)
  have "B * 1 \<le> B * (1 + overconsumption_percent mtd)"
    using B0 ov(2) by (intro mult_left_mono) simp_all
  then have BE: "B \<le> E" using EB by simp
  then have E0: "0 < E" using B0 by linarith
  have "0 < t" by (rule rounded_pos[OF r E0])
  then have n1: "1 \<le> \<lceil>t\<rceil>" by simp
  from rounded7_close(1)[OF r _ E50] E0 have "E - 1 \<le> t" by simp
  with BE have "B - 1 \<le> t" by linarith
  then have "\<lceil>B - 1\<rceil> \<le> \<lceil>t\<rceil>" by (rule ceiling_mono)
  then have "\<lceil>B\<rceil> - 1 \<le> \<lceil>t\<rceil>" by simp
  with t n1 show "\<exists>n. calculate_material_quantity d (st_type_name std) (mt_type_name mtd)
                      (PInt quantity) (PFloat (Fin service_params)) = ([], PInt n)
                 \<and> 1 \<le> n
                 \<and> \<lceil>service_params * complexity_coefficient std * of_int quantity\<rceil> - 1 \<le> n"
    unfolding B_def by blast
next
  fix q1 q2 p n1 n2
  assume a: "0 < q1 \<and> q1 \<le> q2 \<and> 0 < p \<and>
            calculate_material_quantity d (st_type_name std) (mt_type_name mtd)
              (PInt q1) (PFloat (Fin p)) = ([], PInt n1) \<and>
            calculate_material_quantity d (st_type_name std) (mt_type_name mtd)
              (PInt q2) (PFloat (Fin p)) = ([], PInt n2)"
  then have q: "0 < q1" "q1 \<le> q2" "0 < q2" and p: "0 < p" by simp_all
  note f = find_distinct[OF std] find_distinct[OF mtd]
  from a calculate_material_quantity_success[OF f q(1) p] obtain t1 where
    t1: "total_quantity std mtd (PInt q1) (PFloat (Fin p)) = Inr (Fin t1)" "n1 = \<lceil>t1\<rceil>"
    by blast
  from a calculate_material_quantity_success[OF f q(3) p] obtain t2 where
    t2: "total_quantity std mtd (PInt q2) (PFloat (Fin p)) = Inr (Fin t2)" "n2 = \<lceil>t2\<rceil>"
    by blast
  have "t1 \<le> t2"
    using total_quantity_mono[OF t1(1) t2(1) _ ov(2) q(1,2) p] c(2) by simp
  then show "n1 \<le> n2" unfolding t1(2) t2(2) by (rule ceiling_mono)
next
  fix p1 p2 q n1 n2
  assume a: "0 < p1 \<and> p1 \<le> p2 \<and> 0 < q \<and>
            calculate_material_quantity d (st_type_name std) (mt_type_name mtd)
              (PInt q) (PFloat (Fin p1)) = ([], PInt n1) \<and>
            calculate_material_quantity d (st_type_name std) (mt_type_name mtd)
              (PInt q) (PFloat (Fin p2)) = ([], PInt n2)"
  then have p: "0 < p1" "p1 \<le> p2" "0 < p2" and q: "0 < q" by simp_all
  note f = find_distinct[OF std] find_distinct[OF mtd]
  from a calculate_material_quantity_success[OF f q p(1)] obtain t1 where
    t1: "total_quantity std mtd (PInt q) (PFloat (Fin p1)) = Inr (Fin t1)" "n1 = \<lceil>t1\<rceil>"
    by blast
  from a calculate_material_quantity_success[OF f q p(3)] obtain t2 where
    t2: "total_quantity std mtd (PInt q) (PFloat (Fin p2)) = Inr (Fin t2)" "n2 = \<lceil>t2\<rceil>"
    by blast
  have "t1 \<le> t2"
    using total_quantity_mono[OF t1(1) t2(1) _ ov(2) q _ p(1,2)] c(2) by simp
  then show "n1 \<le> n2" unfolding t1(2) t2(2) by (rule ceiling_mono)
qed

theorem material_quantity_bounds_and_monotone_witness:
  "\<lparr>st_type_name = ''A'', complexity_coefficient = 15 / 10\<rparr> \<in> set (service_types example_db) \<and>
   distinct (map st_type_name (service_types example_db)) \<and>
   \<lparr>mt_type_name = ''B'', overconsumption_percent = 10 / 100\<rparr> \<in> set (material_types example_db) \<and>
   distinct (map mt_type_name (material_types example_db)) \<and>
   numeric 3 1 (15 / 10) \<and> numeric 3 2 (10 / 100) \<and>
   exact_quantity 2 (15 / 10) 3 (10 / 100) = 99 / 10 \<and>
   (\<exists>n. calculate_material_quantity example_db ''A'' ''B'' (PInt 3) (PFloat (Fin 2)) = ([], PInt n)
      \<and> 1 \<le> n \<and> \<lceil>2 * (15 / 10) * of_int 3 :: rat\<rceil> - 1 \<le> n) \<and>
   calculate_material_quantity example_db ''A'' ''B'' (PInt 3) (PFloat (Fin 2)) = ([], PInt 10) \<and>
   calculate_material_quantity example_db ''A'' ''B'' (PInt 4) (PFloat (Fin 2)) = ([], PInt 14) \<and>
   calculate_material_quantity example_db ''A'' ''B'' (PInt 3) (PFloat (Fin 3)) = ([], PInt 15) \<and>
   (10 :: int) \<le> 14 \<and> (10 :: int) \<le> 15"
proof -
  have h: "\<lparr>st_type_name = ''A'', complexity_coefficient = 15 / 10\<rparr> \<in> set (service_types example_db)"
    "distinct (map st_type_name (service_types example_db))"
    "\<lparr>mt_type_name = ''B'', overconsumption_percent = 10 / 100\<rparr> \<in> set (material_types example_db)"
    "distinct (map mt_type_name (material_types example_db))"
    by (simp_all add: example_db_def)
  have n: "numeric 3 1 (15 / 10)" "numeric 3 2 (10 / 100)"
    by (simp_all add: numeric_def floor_rat_numeral)
  have e: "exact_quantity 2 (15 / 10) 3 (10 / 100) = 99 / 10"
    by (simp add: exact_quantity_def)
  have n': "numeric 3 1 (complexity_coefficient \<lparr>st_type_name = ''A'', complexity_coefficient = 15 / 10\<rparr>)"
    "0 < complexity_coefficient \<lparr>st_type_name = ''A'', complexity_coefficient = 15 / 10\<rparr>"
    "numeric 3 2 (overconsumption_percent \<lparr>mt_type_name = ''B'', overconsumption_percent = 10 / 100\<rparr>)"
    "0 \<le> overconsumption_percent \<lparr>mt_type_name = ''B'', overconsumption_percent = 10 / 100\<rparr>"
    using n by simp_all
  note m = material_quantity_bounds_and_monotone[OF h n', where quantity = 3 and service_params = 2]
  have a: "\<exists>n. calculate_material_quantity example_db ''A'' ''B'' (PInt 3) (PFloat (Fin 2)) = ([], PInt n)
      \<and> 1 \<le> n \<and> \<lceil>2 * (15 / 10) * of_int 3 :: rat\<rceil> - 1 \<le> n"
    using m e by simp
  have "(10 :: int) \<le> 14"
    using m example_quantity_2_3 example_quantity_2_4 by simp
  moreover have "(10 :: int) \<le> 15"
    using m example_quantity_2_3 example_quantity_3_3 by simp
  ultimately show ?thesis
    using h n e a example_quantity_2_3 example_quantity_2_4 example_quantity_3_3 by blast
qed

text \<open>
  C3, as stated, fails: with coefficient \<open>0.3\<close>, no overconsumption, quantity \<open>1\<close> and
  \<^verbatim>\<open>service_params\<close> the double \<open>3.3333333333333335\<close>, the exact product
  \<open>serviceParams \<times> complexityCoefficient \<times> quantity\<close> is just above \<open>1\<close>, so its ceiling
  is \<open>2\<close>, and the call returns \<open>1\<close>: the product computed in doubles is exactly \<open>1\<close>.
\<close>

theorem quantity_lower_bound_counterexample:
  "round_double (7505999378950827 / 2251799813685248)
     = Fin (7505999378950827 / 2251799813685248) \<and>
   calculate_material_quantity rounding_db ''V'' ''X'' (PInt 1)
     (PFloat (Fin (7505999378950827 / 2251799813685248))) = ([], PInt 1) \<and>
   \<lceil>7505999378950827 / 2251799813685248 * (3 / 10) * of_int 1 :: rat\<rceil> = 2"
  using rd_params rounding_quantity by (simp add: ceiling_rat_numeral)

section \<open>Lookups\<close>

lemma find_None_image: "find (\<lambda>r. key r = k) rows = None \<longleftrightarrow> k \<notin> key ` set rows"
  by (auto simp: find_None_iff)

lemma find_Some_image:
  "k \<in> key ` set rows \<Longrightarrow> \<exists>r. find (\<lambda>r. key r = k) rows = Some r \<and> r \<in> set rows \<and> key r = k"
  by (induction rows) auto

section \<open>Failure paths of \<open>calculate_service_cost\<close>\<close>

text \<open>
  C6. A service code that no row of the services table carries makes
  \<open>calculate_service_cost\<close> fail on its not-found path: it logs
  "Service not found" and returns the failure value \<open>-1\<close>, whatever the other tables hold.
\<close>

theorem unknown_service_fails:
  assumes "code \<notin> service_code ` set (services d)"
  shows "calculate_service_cost d code = ([Service_not_found code], PInt (- 1))"
  using assms by (simp add: calculate_service_cost_def find_None_image[symmetric])

theorem unknown_service_fails_witness:
  "''S9'' \<notin> service_code ` set (services example_db) \<and>
   calculate_service_cost example_db ''S9'' = ([Service_not_found ''S9''], PInt (- 1))"
proof -
  have h: "''S9'' \<notin> service_code ` set (services example_db)"
    by (simp add: example_db_def)
  from unknown_service_fails[OF h] h show ?thesis by simp
qed

text \<open>
  C7. A service that is in the table but has no row in the consumption table makes
  \<open>calculate_service_cost\<close> fail on its no-materials path: it logs
  "No materials found" and returns \<open>-1\<close>, not the labor cost and not zero.
\<close>

theorem no_rows_fails:
  assumes "code \<in> service_code ` set (services d)"
    and "code \<notin> sm_service_code ` set (service_materials d)"
  shows "calculate_service_cost d code = ([No_materials_found code], PInt (- 1))"
proof -
  obtain s where "find (\<lambda>s. service_code s = code) (services d) = Some s"
    using find_Some_image[OF assms(1)] by blast
  moreover have "filter (\<lambda>sm. sm_service_code sm = code) (service_materials d) = []"
    using assms(2) by (auto simp: filter_empty_conv)
  ultimately show ?thesis
    by (simp add: calculate_service_cost_def)
qed

theorem no_rows_fails_witness:
  "''S2'' \<in> service_code ` set (services example_db) \<and>
   ''S2'' \<notin> sm_service_code ` set (service_materials example_db) \<and>
   calculate_service_cost example_db ''S2'' = ([No_materials_found ''S2''], PInt (- 1))"
proof -
  have h1: "''S2'' \<in> service_code ` set (services example_db)"
    by (simp add: example_db_def)
  have h2: "''S2'' \<notin> sm_service_code ` set (service_materials example_db)"
    by (simp add: example_db_def)
  from no_rows_fails[OF h1 h2] h1 h2 show ?thesis by simp
qed

lemma material_cost_loop_missing:
  assumes "\<exists>sm \<in> set sms. sm_material_id sm \<notin> material_id ` set ms"
  shows "\<exists>mid. material_cost_loop ms sms acc = Inl mid \<and> mid \<in> sm_material_id ` set sms
           \<and> mid \<notin> material_id ` set ms"
  using assms
proof (induction sms arbitrary: acc)
  case Nil
  then show ?case by simp
next
  case (Cons sm sms)
  show ?case
  proof (cases "find (\<lambda>m. material_id m = sm_material_id sm) ms")
    case None
    then have "sm_material_id sm \<notin> material_id ` set ms"
      by (simp add: find_None_image)
    with None show ?thesis by simp
  next
    case (Some m)
    then have "sm_material_id sm \<in> material_id ` set ms"
      using find_None_image[of material_id "sm_material_id sm" ms] by auto
    with Cons.prems have "\<exists>sm \<in> set sms. sm_material_id sm \<notin> material_id ` set ms"
      by auto
    from Cons.IH[OF this] obtain mid where
      "material_cost_loop ms sms
         (fadd acc (float_of_decimal (consumption_norm sm * current_price m))) = Inl mid"
      "mid \<in> sm_material_id ` set sms" "mid \<notin> material_id ` set ms"
      by blast
    with Some show ?thesis by auto
  qed
qed

text \<open>
  C8. When some consumption row of an existing service names a material that is not in
  the materials table, \<open>calculate_service_cost\<close> fails: it logs "Material not found"
  for a missing material id and returns \<open>-1\<close>; it returns no cost computed from the
  other rows.
\<close>

theorem missing_material_fails:
  assumes "code \<in> service_code ` set (services d)"
    and "\<exists>sm \<in> set (service_materials d).
           sm_service_code sm = code \<and> sm_material_id sm \<notin> material_id ` set (materials d)"
  shows "\<exists>mid. calculate_service_cost d code = ([Material_not_found mid], PInt (- 1))
           \<and> mid \<notin> material_id ` set (materials d)"
proof -
  obtain s where s: "find (\<lambda>s. service_code s = code) (services d) = Some s"
    using find_Some_image[OF assms(1)] by blast
  define sms where "sms = filter (\<lambda>sm. sm_service_code sm = code) (service_materials d)"
  from assms(2) have ex: "\<exists>sm \<in> set sms. sm_material_id sm \<notin> material_id ` set (materials d)"
    by (auto simp: sms_def)
  then have ne: "sms \<noteq> []" by auto
  obtain mid where mid: "material_cost_loop (materials d) sms (Fin 0) = Inl mid"
    "mid \<notin> material_id ` set (materials d)"
    using material_cost_loop_missing[OF ex] by blast
  from s ne mid show ?thesis
    by (auto simp: calculate_service_cost_def sms_def[symmetric] split: list.splits)
qed

theorem missing_material_fails_witness:
  "''S3'' \<in> service_code ` set (services example_db) \<and>
   (\<exists>sm \<in> set (service_materials example_db).
      sm_service_code sm = ''S3'' \<and> sm_material_id sm \<notin> material_id ` set (materials example_db)) \<and>
   (\<exists>mid. calculate_service_cost example_db ''S3'' = ([Material_not_found mid], PInt (- 1))
      \<and> mid \<notin> material_id ` set (materials example_db))"
proof -
  have h1: "''S3'' \<in> service_code ` set (services example_db)"
    by (simp add: example_db_def)
  have h2: "\<exists>sm \<in> set (service_materials example_db).
      sm_service_code sm = ''S3'' \<and> sm_material_id sm \<notin> material_id ` set (materials example_db)"
    by (simp add: example_db_def)
  from missing_material_fails[OF h1 h2] h1 h2 show ?thesis by blast
qed

section \<open>Failure paths of \<open>calculate_material_quantity\<close>\<close>

lemma fmul_not_Fin_left: "\<forall>a. x \<noteq> Fin a \<Longrightarrow> fmul x y \<noteq> Fin t"
  by (cases x; cases y) (simp_all add: inf_of_sign_def)

lemma total_quantity_nonfinite:
  assumes "service_params = PFloat NaN \<or> service_params = PFloat PInf"
  shows "total_quantity std mtd quantity service_params \<noteq> Inr (Fin t)"
  using assms fmul_not_Fin_left
  by (auto simp: total_quantity_def Let_def split: sum.splits)

lemma ceil_Inr: "ceil x = Inr n \<Longrightarrow> \<exists>t. x = Fin t"
  by (cases x) simp_all

text \<open>
  C5, as amended. \<open>calculate_material_quantity\<close> fails on an invalid-input path, returning
  \<open>-1\<close> and logging "Invalid quantity" or "Invalid service_params", for every database
  and whatever the other arguments are, when the quantity is not a positive integer, or
  when \<^verbatim>\<open>service_params\<close> is not a positive real number and is neither NaN nor
  \<open>+\<infinity>\<close>. A NaN or \<open>+\<infinity>\<close> \<^verbatim>\<open>service_params\<close> passes the validation
  (\<^verbatim>\<open>nan <= 0\<close> and \<^verbatim>\<open>inf <= 0\<close> are false): the call still returns \<open>-1\<close>, but
  through a not-found path or the \<^verbatim>\<open>except\<close> clause, never through an invalid-input
  path.
\<close>

theorem invalid_input_paths:
  "(\<not> positive_integer quantity
      \<or> (\<not> positive_real service_params \<and> service_params \<notin> {PFloat NaN, PFloat PInf})
    \<longrightarrow> snd (calculate_material_quantity d service_type material_type quantity service_params)
          = PInt (- 1)
      \<and> fst (calculate_material_quantity d service_type material_type quantity service_params)
          \<in> {[Invalid_quantity quantity], [Invalid_service_params service_params]})
 \<and> (positive_integer quantity \<and> service_params \<in> {PFloat NaN, PFloat PInf}
    \<longrightarrow> snd (calculate_material_quantity d service_type material_type quantity service_params)
          = PInt (- 1)
      \<and> fst (calculate_material_quantity d service_type material_type quantity service_params)
          \<notin> {[], [Invalid_quantity quantity], [Invalid_service_params service_params]})"
proof (intro conjI impI)
  assume h: "\<not> positive_integer quantity
      \<or> (\<not> positive_real service_params \<and> service_params \<notin> {PFloat NaN, PFloat PInf})"
  have g: "(\<not> isinstance_int quantity \<or> le_zero quantity)
         \<or> (\<not> isinstance_int_float service_params \<or> le_zero service_params)"
    using h
    by (cases quantity rule: positive_integer.cases;
        cases service_params rule: le_zero.cases) auto
  from g show "snd (calculate_material_quantity d service_type material_type quantity service_params)
          = PInt (- 1)"
    by (auto simp: calculate_material_quantity_def)
  from g show "fst (calculate_material_quantity d service_type material_type quantity service_params)
          \<in> {[Invalid_quantity quantity], [Invalid_service_params service_params]}"
    by (auto simp: calculate_material_quantity_def)
next
  assume h: "positive_integer quantity \<and> service_params \<in> {PFloat NaN, PFloat PInf}"
  then have q: "isinstance_int quantity" "\<not> le_zero quantity"
    by (cases quantity rule: positive_integer.cases; simp)+
  from h have p: "isinstance_int_float service_params" "\<not> le_zero service_params"
    by auto
  from h have nf: "\<And>std mtd t. total_quantity std mtd quantity service_params \<noteq> Inr (Fin t)"
    using total_quantity_nonfinite by blast
  show "snd (calculate_material_quantity d service_type material_type quantity service_params)
          = PInt (- 1)"
    using q p nf
    by (auto simp: calculate_material_quantity_def split: option.splits sum.splits dest!: ceil_Inr)
  show "fst (calculate_material_quantity d service_type material_type quantity service_params)
          \<notin> {[], [Invalid_quantity quantity], [Invalid_service_params service_params]}"
    using q p nf
    by (auto simp: calculate_material_quantity_def split: option.splits sum.splits dest!: ceil_Inr)
qed

theorem invalid_input_paths_witness:
  "\<not> positive_integer (PInt 0) \<and>
   snd (calculate_material_quantity example_db ''A'' ''B'' (PInt 0) (PFloat (Fin 2))) = PInt (- 1) \<and>
   fst (calculate_material_quantity example_db ''A'' ''B'' (PInt 0) (PFloat (Fin 2)))
     \<in> {[Invalid_quantity (PInt 0)], [Invalid_service_params (PFloat (Fin 2))]} \<and>
   \<not> positive_real (PFloat (Fin (- 2))) \<and>
   snd (calculate_material_quantity example_db ''A'' ''B'' (PInt 3) (PFloat (Fin (- 2)))) = PInt (- 1) \<and>
   fst (calculate_material_quantity example_db ''A'' ''B'' (PInt 3) (PFloat (Fin (- 2))))
     \<in> {[Invalid_quantity (PInt 3)], [Invalid_service_params (PFloat (Fin (- 2)))]} \<and>
   positive_integer (PInt 3) \<and>
   snd (calculate_material_quantity example_db ''A'' ''B'' (PInt 3) (PFloat NaN)) = PInt (- 1) \<and>
   fst (calculate_material_quantity example_db ''A'' ''B'' (PInt 3) (PFloat NaN))
     \<notin> {[], [Invalid_quantity (PInt 3)], [Invalid_service_params (PFloat NaN)]}"
  using invalid_input_paths[where quantity = "PInt 0" and service_params = "PFloat (Fin 2)"
          and d = example_db and service_type = "''A''" and material_type = "''B''"]
        invalid_input_paths[where quantity = "PInt 3" and service_params = "PFloat (Fin (- 2))"
          and d = example_db and service_type = "''A''" and material_type = "''B''"]
        invalid_input_paths[where quantity = "PInt 3" and service_params = "PFloat NaN"
          and d = example_db and service_type = "''A''" and material_type = "''B''"]
  by simp

text \<open>
  C5, as stated, fails: NaN and \<open>+\<infinity>\<close> are not positive real numbers, yet with them
  the call does not fail on an invalid-input path. With both types in the catalog it
  fails in the \<^verbatim>\<open>except\<close> clause, on the \<^verbatim>\<open>ValueError\<close> or \<^verbatim>\<open>OverflowError\<close> of
  \<^verbatim>\<open>ceil\<close>; with an unknown service type it fails as not found.
\<close>

theorem nan_passes_validation_counterexample:
  "\<not> positive_real (PFloat NaN) \<and>
   calculate_material_quantity example_db ''A'' ''B'' (PInt 3) (PFloat NaN)
     = ([Error_calculating_material_quantity ValueError], PInt (- 1)) \<and>
   calculate_material_quantity example_db ''Z'' ''B'' (PInt 3) (PFloat NaN)
     = ([Service_type_not_found ''Z''], PInt (- 1)) \<and>
   \<not> positive_real (PFloat PInf) \<and>
   calculate_material_quantity example_db ''A'' ''B'' (PInt 3) (PFloat PInf)
     = ([Error_calculating_material_quantity OverflowError], PInt (- 1)) \<and>
   calculate_material_quantity example_db ''Z'' ''B'' (PInt 3) (PFloat PInf)
     = ([Service_type_not_found ''Z''], PInt (- 1))"
  by (simp add: calculate_material_quantity_def example_db_def total_quantity_def
        float_of_int_def float_of_decimal_def inf_of_sign_def rd_3 rd_3_2 rd_1_10 rd_1_1)

text \<open>
  C9. With a quantity and a \<^verbatim>\<open>service_params\<close> that pass the validation,
  \<open>calculate_material_quantity\<close> fails on its not-found paths: "Service type not found"
  when no row of the service types carries the name, and "Material type not found"
  when the service type is there but the material type is not; both return \<open>-1\<close>.
\<close>

theorem unknown_types_fail:
  assumes "isinstance_int quantity" "\<not> le_zero quantity"
    and "isinstance_int_float service_params" "\<not> le_zero service_params"
  shows "(service_type \<notin> st_type_name ` set (service_types d) \<longrightarrow>
           calculate_material_quantity d service_type material_type quantity service_params
             = ([Service_type_not_found service_type], PInt (- 1)))
       \<and> (service_type \<in> st_type_name ` set (service_types d) \<and>
          material_type \<notin> mt_type_name ` set (material_types d) \<longrightarrow>
           calculate_material_quantity d service_type material_type quantity service_params
             = ([Material_type_not_found material_type], PInt (- 1)))"
  using assms find_Some_image[of service_type st_type_name "service_types d"]
  by (auto simp add: calculate_material_quantity_def find_None_image[symmetric])

theorem unknown_types_fail_witness:
  "isinstance_int (PInt 3) \<and> \<not> le_zero (PInt 3) \<and>
   isinstance_int_float (PFloat (Fin 2)) \<and> \<not> le_zero (PFloat (Fin 2)) \<and>
   ''Z'' \<notin> st_type_name ` set (service_types example_db) \<and>
   calculate_material_quantity example_db ''Z'' ''B'' (PInt 3) (PFloat (Fin 2))
     = ([Service_type_not_found ''Z''], PInt (- 1)) \<and>
   ''A'' \<in> st_type_name ` set (service_types example_db) \<and>
   ''Y'' \<notin> mt_type_name ` set (material_types example_db) \<and>
   calculate_material_quantity example_db ''A'' ''Y'' (PInt 3) (PFloat (Fin 2))
     = ([Material_type_not_found ''Y''], PInt (- 1))"
proof -
  have q: "isinstance_int (PInt 3)" "\<not> le_zero (PInt 3)"
    and p: "isinstance_int_float (PFloat (Fin 2))" "\<not> le_zero (PFloat (Fin 2))"
    by simp_all
  have z: "''Z'' \<notin> st_type_name ` set (service_types example_db)"
    and a: "''A'' \<in> st_type_name ` set (service_types example_db)"
    and y: "''Y'' \<notin> mt_type_name ` set (material_types example_db)"
    by (simp_all add: example_db_def)
  from unknown_types_fail[OF q p, of "''Z''" example_db "''B''"]
       unknown_types_fail[OF q p, of "''A''" example_db "''Y''"] q p z a y
  show ?thesis by blast
qed



section \<open>Independence of \<open>min_cost\<close>\<close>

lemma find_service_forget:
  "map_option (\<lambda>s. s\<lparr>min_cost := 0\<rparr>) (find (\<lambda>s. service_code s = code) xs)
     = find (\<lambda>s. service_code s = code) (map (\<lambda>s. s\<lparr>min_cost := 0\<rparr>) xs)"
  by (induction xs) auto

lemma find_service_agree:
  assumes "map (\<lambda>s. s\<lparr>min_cost := 0\<rparr>) xs = map (\<lambda>s. s\<lparr>min_cost := (0::rat)\<rparr>) ys"
  shows "(find (\<lambda>s. service_code s = code) xs = None \<and> find (\<lambda>s. service_code s = code) ys = None)
       \<or> (\<exists>s s'. find (\<lambda>s. service_code s = code) xs = Some s
             \<and> find (\<lambda>s. service_code s = code) ys = Some s'
             \<and> time_norm_hours s = time_norm_hours s' \<and> hourly_rate s = hourly_rate s')"
proof -
  have eq: "map_option (\<lambda>s. s\<lparr>min_cost := 0\<rparr>) (find (\<lambda>s. service_code s = code) xs)
       = map_option (\<lambda>s. s\<lparr>min_cost := 0\<rparr>) (find (\<lambda>s. service_code s = code) ys)"
    by (simp add: find_service_forget assms)
  show ?thesis
  proof (cases "find (\<lambda>s. service_code s = code) xs")
    case None
    with eq show ?thesis by simp
  next
    case (Some s)
    with eq obtain s' where s': "find (\<lambda>s. service_code s = code) ys = Some s'"
      "s\<lparr>min_cost := 0\<rparr> = s'\<lparr>min_cost := 0\<rparr>"
      by (cases "find (\<lambda>s. service_code s = code) ys") auto
    from s'(2) have "time_norm_hours (s\<lparr>min_cost := 0\<rparr>) = time_norm_hours (s'\<lparr>min_cost := 0\<rparr>)"
      "hourly_rate (s\<lparr>min_cost := 0\<rparr>) = hourly_rate (s'\<lparr>min_cost := 0\<rparr>)"
      by simp_all
    then have "time_norm_hours s = time_norm_hours s'" "hourly_rate s = hourly_rate s'"
      by simp_all
    with Some s'(1) show ?thesis by simp
  qed
qed

text \<open>
  C10. \<open>calculate_service_cost\<close> never reads the \<open>min_cost\<close> column: on two
  databases that differ at most in \<open>min_cost\<close> values of services it returns the same
  outcome, value and logged line alike, for every service code.
\<close>

theorem min_cost_irrelevant:
  assumes "same_but_min_cost d d'"
  shows "calculate_service_cost d code = calculate_service_cost d' code"
proof -
  from assms have t: "materials d = materials d'" "service_materials d = service_materials d'"
    and m: "map (\<lambda>s. s\<lparr>min_cost := 0\<rparr>) (services d) = map (\<lambda>s. s\<lparr>min_cost := 0\<rparr>) (services d')"
    by (simp_all add: same_but_min_cost_def)
  from find_service_agree[OF m, of code] show ?thesis
    unfolding calculate_service_cost_def t by auto
qed

theorem min_cost_irrelevant_witness:
  "same_but_min_cost example_db
     (example_db\<lparr>services := map (\<lambda>s. if service_code s = ''S2'' then s\<lparr>min_cost := 5\<rparr> else s)
        (services example_db)\<rparr>) \<and>
   calculate_service_cost example_db ''S2''
     = calculate_service_cost
        (example_db\<lparr>services := map (\<lambda>s. if service_code s = ''S2'' then s\<lparr>min_cost := 5\<rparr> else s)
           (services example_db)\<rparr>) ''S2''"
proof -
  have h: "same_but_min_cost example_db
     (example_db\<lparr>services := map (\<lambda>s. if service_code s = ''S2'' then s\<lparr>min_cost := 5\<rparr> else s)
        (services example_db)\<rparr>)"
    by (simp add: same_but_min_cost_def example_db_def)
  from min_cost_irrelevant[OF h, of "''S2''"] h show ?thesis by simp
qed

section \<open>The failure signal\<close>

text \<open>
  C4, as amended. Every failure of \<open>calculate_service_cost\<close> and of
  \<open>calculate_material_quantity\<close> returns the same number, the integer \<open>-1\<close>,
  whatever went wrong, together with exactly one logged line that names the cause;
  every success logs nothing and returns a float (the cost) or an integer (the
  quantity).
\<close>

theorem outcome_shape:
  "((\<exists>e. calculate_service_cost d code = ([e], PInt (- 1)))
      \<or> (\<exists>x. calculate_service_cost d code = ([], PFloat x)))
 \<and> ((\<exists>e. calculate_material_quantity d st mt q p = ([e], PInt (- 1)))
      \<or> (\<exists>n. calculate_material_quantity d st mt q p = ([], PInt n)))"
  by (auto simp: calculate_service_cost_def calculate_material_quantity_def Let_def
      split: option.splits list.splits sum.splits)

theorem outcome_shape_witness:
  "((\<exists>e. calculate_service_cost example_db ''S2'' = ([e], PInt (- 1)))
      \<or> (\<exists>x. calculate_service_cost example_db ''S2'' = ([], PFloat x)))
 \<and> ((\<exists>e. calculate_material_quantity example_db ''A'' ''Y'' (PInt 3) (PFloat (Fin 2))
            = ([e], PInt (- 1)))
      \<or> (\<exists>n. calculate_material_quantity example_db ''A'' ''Y'' (PInt 3) (PFloat (Fin 2))
            = ([], PInt n)))
 \<and> fst (calculate_service_cost example_db ''S2'') \<noteq> []
 \<and> fst (calculate_material_quantity example_db ''A'' ''Y'' (PInt 3) (PFloat (Fin 2))) \<noteq> []"
proof -
  have "fst (calculate_service_cost example_db ''S2'') \<noteq> []"
    by (simp add: calculate_service_cost_def example_db_def)
  moreover have
    "fst (calculate_material_quantity example_db ''A'' ''Y'' (PInt 3) (PFloat (Fin 2))) \<noteq> []"
    by (simp add: calculate_material_quantity_def example_db_def)
  ultimately show ?thesis
    using outcome_shape[of example_db "''S2''" "''A''" "''Y''" "PInt 3" "PFloat (Fin 2)"]
    by blast
qed

text \<open>
  C4, as stated, fails: an unknown service, a service without consumption rows and an
  invalid quantity are three different failure categories, and the caller receives
  the same value \<open>-1\<close> for each of them.
\<close>

theorem sentinel_counterexample:
  "calculate_service_cost example_db ''S9'' = ([Service_not_found ''S9''], PInt (- 1)) \<and>
   calculate_service_cost example_db ''S2'' = ([No_materials_found ''S2''], PInt (- 1)) \<and>
   calculate_material_quantity example_db ''A'' ''B'' (PInt 0) (PFloat (Fin 2))
     = ([Invalid_quantity (PInt 0)], PInt (- 1))"
  by (simp add: calculate_service_cost_def calculate_material_quantity_def example_db_def)


end
